theory Spec2Isabelle
  imports Main "HOL-Library.Word" "HOL-Library.Signed_Division"
begin

unbundle bit_operations_syntax

section \<open>Faabric: the MPI world, the executor and the scheduler\<close>

text \<open>
  A shallow embedding of \<^verbatim>\<open>MpiWorld.cpp\<close> (point-to-point messaging, reduce, scan,
  world creation, the Cartesian topology) and of \<^verbatim>\<open>FaabricExecutor.cpp\<close>.

  Conventions.
  \<^item> A C++ \<^verbatim>\<open>int\<close> (rank, count, id, coordinate) is an \<^typ>\<open>int\<close>. Signed overflow is
    undefined behaviour in the source and outside the model; \<^verbatim>\<open>/\<close> and \<^verbatim>\<open>%\<close>
    truncate towards zero, which is \<open>sdiv\<close> and \<open>smod\<close>.
  \<^item> Every \<^verbatim>\<open>throw std::runtime_error\<close> is a constructor of \<open>error\<close>. Behaviour that
    is undefined in the source has a constructor too: a division by zero is
    \<open>DivisionByZero\<close>, an access outside a buffer is \<open>MemoryFault\<close>; a \<^verbatim>\<open>dequeue()\<close>
    on an empty queue, which blocks the calling thread until a message arrives, is
    \<open>WouldBlock\<close>.
  \<^item> A method that mutates the world before it throws returns the mutated world next
    to the error: the result of a method is a pair of the world and \<open>error + value\<close>.
\<close>

subsection \<open>Errors\<close>

datatype error =
    RankOutOfRange        \<comment> \<open>"Rank {} bigger than world size {}"\<close>
  | DimsMismatch          \<comment> \<open>"Product of ranks across dimensions not equal to world size"\<close>
  | HigherDimNotOne       \<comment> \<open>"Non-zero number of processes in dimension greater than 2"\<close>
  | ProcsPerDimMismatch   \<comment> \<open>"Processors per dimension don't match world size"\<close>
  | NoHostEntry           \<comment> \<open>"No host entry for rank {}"\<close>
  | NoMappingForRank      \<comment> \<open>"No mapping found for rank"\<close>
  | RemoteRankQueue       \<comment> \<open>"Accessing in-memory queue for remote rank"\<close>
  | TypeMismatch          \<comment> \<open>"Mismatched message types"\<close>
  | Truncation            \<comment> \<open>"Message too long"\<close>
  | UnsupportedReduceOp   \<comment> \<open>"Unsupported type for ... reduction", "Not yet implemented reduce operation"\<close>
  | WrongWorld            \<comment> \<open>"Queueing message not for this world"\<close>
  | BadStateKey           \<comment> \<open>"World ID must be >0 and rank ID must be >=0"\<close>
  | DivisionByZero
  | MemoryFault
  | WouldBlock

subsection \<open>Messages and datatypes\<close>

type_synonym byte = "8 word"

text \<open>
  \<^verbatim>\<open>faabric_datatype_t\<close> is a struct of an id and a size in bytes; \<^verbatim>\<open>faabric_op_t\<close> a
  struct of an id. The three datatypes and the three operators that \<^verbatim>\<open>op_reduce\<close>
  names are constructors here, every other one is \<open>FAABRIC_OTHER\<close> or \<open>OP_OTHER\<close>.
  \<^verbatim>\<open>op_reduce\<close> reads a buffer of \<^verbatim>\<open>MPI_INT\<close> as an array of \<^verbatim>\<open>int\<close>, one of
  \<^verbatim>\<open>MPI_DOUBLE\<close> as an array of \<^verbatim>\<open>double\<close> and one of \<^verbatim>\<open>MPI_LONG_LONG\<close> as an array
  of \<^verbatim>\<open>long long\<close>; the sizes are those of these types, 4, 8 and 8 bytes (the tests
  expect \<^verbatim>\<open>bytesSize == count * sizeof(int)\<close> for \<^verbatim>\<open>MPI_INT\<close>).
\<close>

datatype datatype_id = FAABRIC_INT | FAABRIC_DOUBLE | FAABRIC_LONG_LONG | FAABRIC_OTHER nat

record faabric_datatype_t =
  dt_id :: datatype_id
  dt_size :: int

definition MPI_INT :: faabric_datatype_t where
  "MPI_INT = \<lparr>dt_id = FAABRIC_INT, dt_size = 4\<rparr>"

definition MPI_DOUBLE :: faabric_datatype_t where
  "MPI_DOUBLE = \<lparr>dt_id = FAABRIC_DOUBLE, dt_size = 8\<rparr>"

definition MPI_LONG_LONG :: faabric_datatype_t where
  "MPI_LONG_LONG = \<lparr>dt_id = FAABRIC_LONG_LONG, dt_size = 8\<rparr>"

datatype faabric_op_t = OP_MAX | OP_MIN | OP_SUM | OP_OTHER nat

datatype MPIMessageType =
    NORMAL | BARRIER_JOIN | BARRIER_DONE | SCATTER | GATHER | ALLGATHER
  | REDUCE | ALLREDUCE | SCAN | ALLTOALL | SENDRECV | RMA_WRITE

record MPIMessage =
  msg_id :: int
  worldId :: int
  sender :: int
  destination :: int
  msg_type :: datatype_id
  msg_count :: int
  messageType :: MPIMessageType
  buffer :: "byte list"

record MPI_Status =
  MPI_SOURCE :: int
  MPI_ERROR :: int
  bytesSize :: int
  MPI_TAG :: int

subsection \<open>The world\<close>

text \<open>
  \<^verbatim>\<open>faabric::Message\<close>: the fields that world creation and the executor read or set.
\<close>

record Message =
  mid :: int
  user :: string
  funcName :: string
  isMpi :: bool
  mpiWorldId :: int
  mpiRank :: int
  cmdline :: string
  outputData :: string
  returnValue :: int

text \<open>
  Modelled from the spec: \<^verbatim>\<open>messageFactory(user, function)\<close>, of which \<^verbatim>\<open>func.h\<close>
  declares the signature only: a message is "created by a factory that assigns ID,
  status/result keys, and a creation timestamp"; the id is the next value of the id
  generator. The test "Test message factory" expects the user, the function and a
  positive id.
\<close>

definition messageFactory :: "int \<Rightarrow> string \<Rightarrow> string \<Rightarrow> Message" where
  "messageFactory gid u f =
     \<lparr>mid = gid, user = u, funcName = f, isMpi = False, mpiWorldId = 0, mpiRank = 0,
      cmdline = [], outputData = [], returnValue = 0\<rparr>"

text \<open>
  The members of \<^verbatim>\<open>class MpiWorld\<close>. The keys of \<^verbatim>\<open>localQueueMap\<close> are the strings
  \<^verbatim>\<open>to_string(sendRank) + "_" + to_string(recvRank)\<close>, one for each pair of ranks; the
  model keeps the pair. \<^verbatim>\<open>cartProcsPerDim\<close> is a vector of two. \<open>stateKV\<close> is the
  pointer to the state entry of the world, \<open>None\<close> while it is null, else the world
  id in the key of the entry it points to. The thread pool is not modelled.

  The fields from \<open>worldState\<close> on are not members: they are the process-wide
  collaborators the methods reach.
  \<^item> \<open>worldState\<close> is the global key-value state under the keys \<^verbatim>\<open>mpi_world_{worldId}\<close>
    (the world size), \<open>rankState\<close> the one under \<^verbatim>\<open>mpi_rank_{worldId}_{rank}\<close>: the
    host name in a buffer of \<^verbatim>\<open>MPI_HOST_STATE_LEN\<close> bytes, kept here without its
    padding of nulls; an entry never written is all nulls, the empty name.
  \<^item> \<open>nextGid\<close> is the counter behind \<^verbatim>\<open>generateGid\<close>.
  \<^item> \<open>remoteSent\<close> logs every \<^verbatim>\<open>FunctionCallClient(host).sendMPIMessage(m)\<close>,
    \<open>rmaSynced\<close> every \<^verbatim>\<open>synchronizeRmaWrite(m, isRemote)\<close> (the window table is not
    modelled further), \<open>schCalls\<close> every \<^verbatim>\<open>Scheduler::callFunction(msg)\<close>.
\<close>

record MpiWorld =
  idW :: int
  sizeW :: int
  userW :: string
  functionW :: string
  thisHost :: string
  cartProcsPerDim :: "int \<times> int"
  rankHostMap :: "int \<rightharpoonup> string"
  localQueueMap :: "(int \<times> int) \<rightharpoonup> MPIMessage list"
  stateKV :: "int option"
  worldState :: "int \<rightharpoonup> int"
  rankState :: "(int \<times> int) \<Rightarrow> string"
  nextGid :: int
  remoteSent :: "(string \<times> MPIMessage) list"
  rmaSynced :: "(MPIMessage \<times> bool) list"
  schCalls :: "Message list"

text \<open>
  The constructor \<^verbatim>\<open>MpiWorld()\<close> on a host, in a process whose global state, id
  generator and scheduler are fresh (what \<^verbatim>\<open>cleanFaabric()\<close> leaves in the tests).
\<close>

definition newWorld :: "string \<Rightarrow> MpiWorld" where
  "newWorld host =
     \<lparr>idW = -1, sizeW = -1, userW = [], functionW = [], thisHost = host,
      cartProcsPerDim = (0, 0), rankHostMap = Map.empty, localQueueMap = Map.empty,
      stateKV = None, worldState = Map.empty, rankState = (\<lambda>_. []), nextGid = 1, remoteSent = [],
      rmaSynced = [], schCalls = []\<rparr>"

definition overrideHost :: "MpiWorld \<Rightarrow> string \<Rightarrow> MpiWorld" where
  "overrideHost w newHost = w\<lparr>thisHost := newHost\<rparr>"

subsection \<open>Rank registration and host lookup\<close>

text \<open>
  Modelled from the spec: the constant \<^verbatim>\<open>MPI_HOST_STATE_LEN\<close>, a macro that
  \<^verbatim>\<open>MpiWorld.cpp\<close> uses and does not define; "length \<^verbatim>\<open>MPI_HOST_STATE_LEN\<close>,
  configurable, typically 50".
\<close>

definition MPI_HOST_STATE_LEN :: nat where
  "MPI_HOST_STATE_LEN = 50"

text \<open>
  \<^verbatim>\<open>getRankStateKey\<close> and \<^verbatim>\<open>getWorldStateKey\<close> throw on a world id that is not positive
  and on a negative rank.
\<close>

definition rankKeyOk :: "int \<Rightarrow> int \<Rightarrow> bool" where
  "rankKeyOk wid rank = (\<not> (wid \<le> 0 \<or> rank < 0))"

definition cString :: "string \<Rightarrow> string" where
  "cString s = takeWhile (\<lambda>c. c \<noteq> CHR 0x00) s"

text \<open>
  \<^verbatim>\<open>registerRank\<close>: the cache first, then \<^verbatim>\<open>strcpy\<close> of the host name into the zeroed
  buffer (past its end when the name does not fit), then the state.
\<close>

definition registerRank :: "MpiWorld \<Rightarrow> int \<Rightarrow> MpiWorld \<times> (error + unit)" where
  "registerRank w rank =
     (let w1 = w\<lparr>rankHostMap := (rankHostMap w)(rank \<mapsto> thisHost w)\<rparr> in
      if MPI_HOST_STATE_LEN \<le> length (cString (thisHost w)) then (w1, Inl MemoryFault)
      else if \<not> rankKeyOk (idW w) rank then (w1, Inl BadStateKey)
      else (w1\<lparr>rankState := (rankState w)((idW w, rank) := cString (thisHost w))\<rparr>, Inr ()))"

definition getHostForRank :: "MpiWorld \<Rightarrow> int \<Rightarrow> MpiWorld \<times> (error + string)" where
  "getHostForRank w rank =
     (case rankHostMap w rank of
        Some h \<Rightarrow> (w, Inr h)
      | None \<Rightarrow>
          if \<not> rankKeyOk (idW w) rank then (w, Inl BadStateKey)
          else if rankState w (idW w, rank) = [] then (w, Inl NoHostEntry)
          else (w\<lparr>rankHostMap := (rankHostMap w)(rank \<mapsto> rankState w (idW w, rank))\<rparr>,
                Inr (rankState w (idW w, rank))))"

definition checkRankOnThisHost :: "MpiWorld \<Rightarrow> int \<Rightarrow> error + unit" where
  "checkRankOnThisHost w rank =
     (case rankHostMap w rank of
        None \<Rightarrow> Inl NoMappingForRank
      | Some h \<Rightarrow> if h \<noteq> thisHost w then Inl RemoteRankQueue else Inr ())"

text \<open>
  \<^verbatim>\<open>getLocalQueue\<close>: the check, then the queue of the pair, created empty when the map
  has none. The value is the contents of the queue.
\<close>

definition getLocalQueue :: "MpiWorld \<Rightarrow> int \<Rightarrow> int \<Rightarrow> MpiWorld \<times> (error + MPIMessage list)" where
  "getLocalQueue w sendRank recvRank =
     (case checkRankOnThisHost w recvRank of
        Inl e \<Rightarrow> (w, Inl e)
      | Inr _ \<Rightarrow>
          (case localQueueMap w (sendRank, recvRank) of
             None \<Rightarrow>
               (w\<lparr>localQueueMap := (localQueueMap w)((sendRank, recvRank) \<mapsto> [])\<rparr>, Inr [])
           | Some q \<Rightarrow> (w, Inr q)))"

definition getLocalQueueSize :: "MpiWorld \<Rightarrow> int \<Rightarrow> int \<Rightarrow> MpiWorld \<times> (error + nat)" where
  "getLocalQueueSize w sendRank recvRank =
     (case getLocalQueue w sendRank recvRank of
        (w', Inl e) \<Rightarrow> (w', Inl e)
      | (w', Inr q) \<Rightarrow> (w', Inr (length q)))"

text \<open>
  \<^verbatim>\<open>setUpStateKV\<close> binds the pointer once, to the entry of the current id
  (\<^verbatim>\<open>getWorldStateKey\<close> throws unless the id is positive); \<^verbatim>\<open>pushToState\<close> writes the
  size to the entry the pointer refers to.
\<close>

definition setUpStateKV :: "MpiWorld \<Rightarrow> error + MpiWorld" where
  "setUpStateKV w =
     (case stateKV w of
        Some _ \<Rightarrow> Inr w
      | None \<Rightarrow> if idW w \<le> 0 then Inl BadStateKey else Inr (w\<lparr>stateKV := Some (idW w)\<rparr>))"

definition pushToState :: "MpiWorld \<Rightarrow> MpiWorld" where
  "pushToState w =
     (case stateKV w of
        None \<Rightarrow> w
      | Some k \<Rightarrow> w\<lparr>worldState := (worldState w)(k \<mapsto> sizeW w)\<rparr>)"

text \<open>\<^verbatim>\<open>destroy\<close>: the state entries of the world and of every cached rank, then the queues.\<close>

definition destroy :: "MpiWorld \<Rightarrow> MpiWorld \<times> (error + unit)" where
  "destroy w =
     (case setUpStateKV w of
        Inl e \<Rightarrow> (w, Inl e)
      | Inr w0 \<Rightarrow>
          let w1 = w0\<lparr>worldState := (worldState w0)(the (stateKV w0) := None)\<rparr> in
          if \<exists>r \<in> dom (rankHostMap w). \<not> rankKeyOk (idW w) r then (w1, Inl BadStateKey)
          else
            (w1\<lparr>rankState := (\<lambda>k. if fst k = idW w \<and> snd k \<in> dom (rankHostMap w) then []
                                    else rankState w k),
                 localQueueMap := Map.empty\<rparr>, Inr ()))"

text \<open>
  \<^verbatim>\<open>initialiseFromState\<close>: the size is read from the state entry; an entry never written
  reads as zeros.
\<close>

definition initialiseFromState :: "MpiWorld \<Rightarrow> Message \<Rightarrow> int \<Rightarrow> MpiWorld \<times> (error + unit)" where
  "initialiseFromState w msg wid =
     (let w1 = w\<lparr>idW := wid, userW := user msg, functionW := funcName msg\<rparr> in
      case setUpStateKV w1 of
        Inl e \<Rightarrow> (w1, Inl e)
      | Inr w2 \<Rightarrow>
          (w2\<lparr>sizeW := (case worldState w2 (the (stateKV w2)) of None \<Rightarrow> 0 | Some n \<Rightarrow> n)\<rparr>,
           Inr ()))"

subsection \<open>World creation\<close>

text \<open>
  \<^verbatim>\<open>Scheduler::callFunction(msg)\<close> as the world sees it: the message is handed over.
\<close>

definition callFunction :: "MpiWorld \<Rightarrow> Message \<Rightarrow> MpiWorld" where
  "callFunction w msg = w\<lparr>schCalls := schCalls w @ [msg]\<rparr>"

text \<open>
  The message that the body of the loop of \<^verbatim>\<open>create\<close> builds for rank \<open>i\<close>: a fresh
  message for the user and function of the world, then the four setters.
\<close>

definition siblingMessage :: "MpiWorld \<Rightarrow> Message \<Rightarrow> int \<Rightarrow> Message" where
  "siblingMessage w call i =
     (messageFactory (nextGid w) (userW w) (functionW w))
       \<lparr>isMpi := True, mpiWorldId := idW w, mpiRank := i, cmdline := cmdline call\<rparr>"

text \<open>
  The loop of \<^verbatim>\<open>create\<close> over the ranks \<open>1 .. size - 1\<close>. In the text of \<^verbatim>\<open>MpiWorld.cpp\<close>
  the four setters are followed by a closing brace, then by \<^verbatim>\<open>sch.callFunction(msg)\<close>
  and a second closing brace. One of the two braces is in excess (the braces of the
  file do not balance), and \<^verbatim>\<open>msg\<close> is declared in the body of the loop, so the call
  that names it belongs to the body: the loop is read as

  \<^verbatim>\<open>for (int i = 1; i < size; i++) { Message msg = ...; msg.set_...; sch.callFunction(msg); }\<close>

  which is the one reading of the text under which \<^verbatim>\<open>msg\<close> is in scope at the call.
\<close>

fun dispatchSiblings :: "MpiWorld \<Rightarrow> Message \<Rightarrow> int list \<Rightarrow> MpiWorld" where
  "dispatchSiblings w call [] = w"
| "dispatchSiblings w call (i # rest) =
     dispatchSiblings (callFunction (w\<lparr>nextGid := nextGid w + 1\<rparr>) (siblingMessage w call i))
       call rest"

definition create :: "MpiWorld \<Rightarrow> Message \<Rightarrow> int \<Rightarrow> int \<Rightarrow> MpiWorld \<times> (error + unit)" where
  "create w call newId newSize =
     (let w1 = w\<lparr>idW := newId, userW := user call, functionW := funcName call,
                 sizeW := newSize\<rparr> in
      case setUpStateKV w1 of
        Inl e \<Rightarrow> (w1, Inl e)
      | Inr w2 \<Rightarrow>
          (case registerRank (pushToState w2) 0 of
             (w3, Inl e) \<Rightarrow> (w3, Inl e)
           | (w3, Inr _) \<Rightarrow> (dispatchSiblings w3 call [1 .. sizeW w3 - 1], Inr ())))"

subsection \<open>Point-to-point messages\<close>

text \<open>
  A buffer argument is the memory the pointer refers to, \<open>None\<close> for \<^verbatim>\<open>nullptr\<close>.
  \<open>loadBytes n p\<close> reads \<open>n\<close> bytes from the pointer, \<open>storeBytes bs p\<close> writes \<open>bs\<close>
  at it; an empty range touches nothing, whatever the pointer is.
\<close>

definition loadBytes :: "nat \<Rightarrow> byte list option \<Rightarrow> error + byte list" where
  "loadBytes n p =
     (if n = 0 then Inr []
      else (case p of
              None \<Rightarrow> Inl MemoryFault
            | Some mem \<Rightarrow> if length mem < n then Inl MemoryFault else Inr (take n mem)))"

definition storeBytes :: "byte list \<Rightarrow> byte list option \<Rightarrow> error + byte list option" where
  "storeBytes bs p =
     (if bs = [] then Inr p
      else (case p of
              None \<Rightarrow> Inl MemoryFault
            | Some mem \<Rightarrow>
                if length mem < length bs then Inl MemoryFault
                else Inr (Some (bs @ drop (length bs) mem))))"

text \<open>\<open>queue->enqueue(m)\<close> on the queue of a pair that \<^verbatim>\<open>getLocalQueue\<close> has returned.\<close>

definition enqueue :: "MpiWorld \<Rightarrow> int \<times> int \<Rightarrow> MPIMessage \<Rightarrow> MpiWorld" where
  "enqueue w k m =
     w\<lparr>localQueueMap := (localQueueMap w)(k \<mapsto> (case localQueueMap w k of
                                                     None \<Rightarrow> [m]
                                                   | Some q \<Rightarrow> q @ [m]))\<rparr>"

definition synchronizeRmaWrite :: "MpiWorld \<Rightarrow> MPIMessage \<Rightarrow> bool \<Rightarrow> MpiWorld" where
  "synchronizeRmaWrite w m isRemote = w\<lparr>rmaSynced := rmaSynced w @ [(m, isRemote)]\<rparr>"

text \<open>
  The number of bytes of \<open>count\<close> elements of a datatype, \<^verbatim>\<open>datatype->size * count\<close>
  where a \<^verbatim>\<open>size_t\<close> is expected: a negative product is a huge size.
\<close>

definition bufferSizeOf :: "faabric_datatype_t \<Rightarrow> int \<Rightarrow> nat" where
  "bufferSizeOf datatype count = nat ((dt_size datatype * count) mod 2 ^ 64)"

text \<open>\<^verbatim>\<open>MpiWorld::send\<close>.\<close>

definition send ::
  "MpiWorld \<Rightarrow> int \<Rightarrow> int \<Rightarrow> byte list option \<Rightarrow> faabric_datatype_t \<Rightarrow> int \<Rightarrow> MPIMessageType
     \<Rightarrow> MpiWorld \<times> (error + unit)" where
  "send w sendRank recvRank buf dataType count mt =
     (if recvRank > sizeW w - 1 then (w, Inl RankOutOfRange)
      else
        let msgId = nextGid w;
            w1 = w\<lparr>nextGid := nextGid w + 1\<rparr>;
            m = \<lparr>msg_id = msgId, worldId = idW w, sender = sendRank, destination = recvRank,
                 msg_type = dt_id dataType, msg_count = count, messageType = mt, buffer = []\<rparr>
        in (case getHostForRank w1 recvRank of
              (w2, Inl e) \<Rightarrow> (w2, Inl e)
            | (w2, Inr otherHost) \<Rightarrow>
                (case (if count > 0 \<and> buf \<noteq> None
                       then loadBytes (bufferSizeOf dataType count) buf
                       else Inr [])
                 of Inl e \<Rightarrow> (w2, Inl e)
                  | Inr bs \<Rightarrow>
                      let m' = m\<lparr>buffer := bs\<rparr> in
                      if otherHost = thisHost w2 then
                        (if mt = RMA_WRITE then (synchronizeRmaWrite w2 m' False, Inr ())
                         else (case getLocalQueue w2 sendRank recvRank of
                                 (w3, Inl e) \<Rightarrow> (w3, Inl e)
                               | (w3, Inr _) \<Rightarrow> (enqueue w3 (sendRank, recvRank) m', Inr ())))
                      else (w2\<lparr>remoteSent := remoteSent w2 @ [(otherHost, m')]\<rparr>, Inr ()))))"

text \<open>
  \<^verbatim>\<open>MpiWorld::recv\<close>. \<open>wantStatus\<close> says whether the status pointer is not null; the
  value is the caller's buffer after the call and the status written, if any.
\<close>

definition recv ::
  "MpiWorld \<Rightarrow> int \<Rightarrow> int \<Rightarrow> byte list option \<Rightarrow> faabric_datatype_t \<Rightarrow> int \<Rightarrow> bool
     \<Rightarrow> MPIMessageType \<Rightarrow> MpiWorld \<times> (error + (byte list option \<times> MPI_Status option))" where
  "recv w sendRank recvRank buf dataType count wantStatus mt =
     (case getLocalQueue w sendRank recvRank of
        (w1, Inl e) \<Rightarrow> (w1, Inl e)
      | (w1, Inr []) \<Rightarrow> (w1, Inl WouldBlock)
      | (w1, Inr (m # q)) \<Rightarrow>
          let w2 = w1\<lparr>localQueueMap := (localQueueMap w1)((sendRank, recvRank) \<mapsto> q)\<rparr> in
          if mt \<noteq> messageType m then (w2, Inl TypeMismatch)
          else if msg_count m > count then (w2, Inl Truncation)
          else (case (if msg_count m > 0 then storeBytes (buffer m) buf else Inr buf) of
                  Inl e \<Rightarrow> (w2, Inl e)
                | Inr buf' \<Rightarrow>
                    (w2, Inr (buf',
                       if wantStatus
                       then Some \<lparr>MPI_SOURCE = sender m, MPI_ERROR = 0,
                                  bytesSize = msg_count m * dt_size dataType, MPI_TAG = -1\<rparr>
                       else None))))"

text \<open>\<^verbatim>\<open>MpiWorld::enqueueMessage\<close>, the entry point for a message from another host.\<close>

definition enqueueMessage :: "MpiWorld \<Rightarrow> MPIMessage \<Rightarrow> MpiWorld \<times> (error + unit)" where
  "enqueueMessage w m =
     (if worldId m \<noteq> idW w then (w, Inl WrongWorld)
      else if messageType m = RMA_WRITE then (synchronizeRmaWrite w m True, Inr ())
      else (case getLocalQueue w (sender m) (destination m) of
              (w1, Inl e) \<Rightarrow> (w1, Inl e)
            | (w1, Inr _) \<Rightarrow> (enqueue w1 (sender m, destination m) m, Inr ())))"

subsection \<open>Typed views of a buffer\<close>

text \<open>
  \<^verbatim>\<open>reinterpret_cast<T*>(buffer)[slot]\<close> reads and writes the \<open>slot\<close>-th group of
  \<open>sizeof(T)\<close> bytes; the bytes of a value are in little-endian order. A \<^verbatim>\<open>double\<close> is
  its 64 bits.
\<close>

fun le_encode :: "nat \<Rightarrow> 'a::len word \<Rightarrow> byte list" where
  "le_encode 0 w = []"
| "le_encode (Suc n) w = ucast w # le_encode n (drop_bit 8 w)"

fun le_decode :: "byte list \<Rightarrow> 'a::len word" where
  "le_decode [] = 0"
| "le_decode (b # bs) = ucast b OR push_bit 8 (le_decode bs)"

definition readSlot :: "nat \<Rightarrow> byte list \<Rightarrow> nat \<Rightarrow> byte list" where
  "readSlot wd mem slot = take wd (drop (slot * wd) mem)"

definition writeSlot :: "nat \<Rightarrow> byte list \<Rightarrow> nat \<Rightarrow> byte list \<Rightarrow> byte list" where
  "writeSlot wd mem slot v = take (slot * wd) mem @ v @ drop (slot * wd + wd) mem"

text \<open>
  The arithmetic on \<^verbatim>\<open>double\<close> is a parameter: \<open>dless\<close> is \<^verbatim>\<open><\<close> and \<open>dadd\<close> is \<^verbatim>\<open>+\<close> on
  the bit patterns of two doubles.
\<close>

record fp =
  dless :: "64 word \<Rightarrow> 64 word \<Rightarrow> bool"
  dadd :: "64 word \<Rightarrow> 64 word \<Rightarrow> 64 word"

text \<open>
  An element of a buffer seen at one of the three types, and the three operators on
  it. \<^verbatim>\<open>std::max(a, b)\<close> is \<open>b\<close> if \<open>a < b\<close> and \<open>a\<close> otherwise; \<^verbatim>\<open>std::min(a, b)\<close> is \<open>b\<close>
  if \<open>b < a\<close> and \<open>a\<close> otherwise; \<^verbatim>\<open>+=\<close> on \<^verbatim>\<open>int\<close> and \<^verbatim>\<open>long long\<close> wraps around.
\<close>

definition maxInt :: "'a::len word \<Rightarrow> 'a word \<Rightarrow> 'a word" where
  "maxInt a b = (if sint a < sint b then b else a)"

definition minInt :: "'a::len word \<Rightarrow> 'a word \<Rightarrow> 'a word" where
  "minInt a b = (if sint b < sint a then b else a)"

definition maxDouble :: "fp \<Rightarrow> 64 word \<Rightarrow> 64 word \<Rightarrow> 64 word" where
  "maxDouble f a b = (if dless f a b then b else a)"

definition minDouble :: "fp \<Rightarrow> 64 word \<Rightarrow> 64 word \<Rightarrow> 64 word" where
  "minDouble f a b = (if dless f b a then b else a)"

text \<open>
  The loop \<^verbatim>\<open>for (slot = 0; slot < count; slot++) out[slot] = g(out[slot], in[slot])\<close>
  on the bytes, for elements of \<open>wd\<close> bytes: \<open>reduceSlots g wd n\<close> is its first \<open>n\<close>
  rounds.
\<close>

fun reduceSlots ::
  "(byte list \<Rightarrow> byte list \<Rightarrow> byte list) \<Rightarrow> nat \<Rightarrow> nat \<Rightarrow> byte list \<Rightarrow> byte list \<Rightarrow> byte list" where
  "reduceSlots g wd 0 inB outB = outB"
| "reduceSlots g wd (Suc n) inB outB =
     (let out' = reduceSlots g wd n inB outB
      in writeSlot wd out' n (g (readSlot wd out' n) (readSlot wd inB n)))"

definition onInt :: "(32 word \<Rightarrow> 32 word \<Rightarrow> 32 word) \<Rightarrow> byte list \<Rightarrow> byte list \<Rightarrow> byte list" where
  "onInt g a b = le_encode 4 (g (le_decode a) (le_decode b))"

definition onLong :: "(64 word \<Rightarrow> 64 word \<Rightarrow> 64 word) \<Rightarrow> byte list \<Rightarrow> byte list \<Rightarrow> byte list" where
  "onLong g a b = le_encode 8 (g (le_decode a) (le_decode b))"

text \<open>
  The branches of \<^verbatim>\<open>op_reduce\<close>: for an operator and a datatype, the size of the C++
  type the buffers are cast to and the assignment of one slot.
\<close>

definition slotOp ::
  "fp \<Rightarrow> faabric_op_t \<Rightarrow> faabric_datatype_t
     \<Rightarrow> error + (nat \<times> (byte list \<Rightarrow> byte list \<Rightarrow> byte list))" where
  "slotOp f operation datatype =
     (case operation of
        OP_MAX \<Rightarrow>
          (case dt_id datatype of
             FAABRIC_INT \<Rightarrow> Inr (4, onInt maxInt)
           | FAABRIC_DOUBLE \<Rightarrow> Inr (8, onLong (maxDouble f))
           | FAABRIC_LONG_LONG \<Rightarrow> Inr (8, onLong maxInt)
           | FAABRIC_OTHER _ \<Rightarrow> Inl UnsupportedReduceOp)
      | OP_MIN \<Rightarrow>
          (case dt_id datatype of
             FAABRIC_INT \<Rightarrow> Inr (4, onInt minInt)
           | FAABRIC_DOUBLE \<Rightarrow> Inr (8, onLong (minDouble f))
           | FAABRIC_LONG_LONG \<Rightarrow> Inr (8, onLong minInt)
           | FAABRIC_OTHER _ \<Rightarrow> Inl UnsupportedReduceOp)
      | OP_SUM \<Rightarrow>
          (case dt_id datatype of
             FAABRIC_INT \<Rightarrow> Inr (4, onInt (\<lambda>out inn. out + inn))
           | FAABRIC_DOUBLE \<Rightarrow> Inr (8, onLong (dadd f))
           | FAABRIC_LONG_LONG \<Rightarrow> Inr (8, onLong (\<lambda>out inn. out + inn))
           | FAABRIC_OTHER _ \<Rightarrow> Inl UnsupportedReduceOp)
      | OP_OTHER _ \<Rightarrow> Inl UnsupportedReduceOp)"

text \<open>
  \<^verbatim>\<open>MpiWorld::op_reduce\<close>. The value is the output buffer after the call. A loop of no
  rounds touches no memory; otherwise both buffers have to hold \<open>count\<close> elements.
\<close>

definition op_reduce ::
  "fp \<Rightarrow> faabric_op_t \<Rightarrow> faabric_datatype_t \<Rightarrow> int \<Rightarrow> byte list option \<Rightarrow> byte list option
     \<Rightarrow> error + byte list option" where
  "op_reduce f operation datatype count inBuffer outBuffer =
     (case slotOp f operation datatype of
        Inl e \<Rightarrow> Inl e
      | Inr (wd, g) \<Rightarrow>
          if count \<le> 0 then Inr outBuffer
          else (case (inBuffer, outBuffer) of
                  (Some inB, Some outB) \<Rightarrow>
                    if length inB < nat count * wd \<or> length outB < nat count * wd
                    then Inl MemoryFault
                    else Inr (Some (reduceSlots g wd (nat count) inB outB))
                | _ \<Rightarrow> Inl MemoryFault))"

subsection \<open>Reduce and scan\<close>

text \<open>
  The two buffer arguments of a collective: the same pointer (in place), or two
  pointers, the send buffer first.
\<close>

datatype buffers = InPlace "byte list option" | Separate "byte list option" "byte list option"

fun recvBufferOf :: "buffers \<Rightarrow> byte list option" where
  "recvBufferOf (InPlace b) = b"
| "recvBufferOf (Separate s r) = r"

fun sendBufferOf :: "buffers \<Rightarrow> byte list option" where
  "sendBufferOf (InPlace b) = b"
| "sendBufferOf (Separate s r) = s"

text \<open>\<^verbatim>\<open>memcpy(recvBuffer, sendBuffer, bufferSize)\<close> when the call is not in place.\<close>

definition initRecvBuffer :: "buffers \<Rightarrow> nat \<Rightarrow> error + byte list option" where
  "initRecvBuffer bufs n =
     (case bufs of
        InPlace b \<Rightarrow> Inr b
      | Separate s r \<Rightarrow>
          (case loadBytes n s of
             Inl e \<Rightarrow> Inl e
           | Inr bs \<Rightarrow> storeBytes bs r))"

text \<open>
  The loop of the root in \<^verbatim>\<open>reduce\<close> over the ranks: \<open>rankData\<close> is zeroed, and for
  every rank but the root itself a message is received into it and reduced into the
  receive buffer.
\<close>

fun reduceLoop ::
  "fp \<Rightarrow> MpiWorld \<Rightarrow> int \<Rightarrow> faabric_datatype_t \<Rightarrow> int \<Rightarrow> faabric_op_t \<Rightarrow> int list
     \<Rightarrow> byte list option \<Rightarrow> MpiWorld \<times> (error + byte list option)" where
  "reduceLoop f w recvRank datatype count operation [] out = (w, Inr out)"
| "reduceLoop f w recvRank datatype count operation (r # rs) out =
     (if r \<noteq> recvRank then
        (case recv w r recvRank (Some (replicate (bufferSizeOf datatype count) 0))
                datatype count False REDUCE of
           (w1, Inl e) \<Rightarrow> (w1, Inl e)
         | (w1, Inr (rankData, _)) \<Rightarrow>
             (case op_reduce f operation datatype count rankData out of
                Inl e \<Rightarrow> (w1, Inl e)
              | Inr out' \<Rightarrow> reduceLoop f w1 recvRank datatype count operation rs out'))
      else reduceLoop f w recvRank datatype count operation rs out)"

text \<open>\<^verbatim>\<open>MpiWorld::reduce\<close>. The value is the receive buffer after the call.\<close>

definition reduce ::
  "fp \<Rightarrow> MpiWorld \<Rightarrow> int \<Rightarrow> int \<Rightarrow> buffers \<Rightarrow> faabric_datatype_t \<Rightarrow> int \<Rightarrow> faabric_op_t
     \<Rightarrow> MpiWorld \<times> (error + byte list option)" where
  "reduce f w sendRank recvRank bufs datatype count operation =
     (if sendRank = recvRank then
        (case initRecvBuffer bufs (bufferSizeOf datatype count) of
           Inl e \<Rightarrow> (w, Inl e)
         | Inr out \<Rightarrow>
             reduceLoop f w recvRank datatype count operation [0 .. sizeW w - 1] out)
      else
        (case send w sendRank recvRank (sendBufferOf bufs) datatype count REDUCE of
           (w1, Inl e) \<Rightarrow> (w1, Inl e)
         | (w1, Inr _) \<Rightarrow> (w1, Inr (recvBufferOf bufs))))"

text \<open>
  \<^verbatim>\<open>MpiWorld::scan\<close>. \<^verbatim>\<open>currentAcc\<close> is allocated and not initialised: its \<open>i\<close>-th byte
  is \<open>heap i\<close>, whatever the allocator has left there. The accumulator is sent on
  with \<^verbatim>\<open>MPI_INT\<close> as its datatype.
\<close>

definition scan ::
  "fp \<Rightarrow> (nat \<Rightarrow> byte) \<Rightarrow> MpiWorld \<Rightarrow> int \<Rightarrow> buffers \<Rightarrow> faabric_datatype_t \<Rightarrow> int
     \<Rightarrow> faabric_op_t \<Rightarrow> MpiWorld \<times> (error + byte list option)" where
  "scan f heap w rank bufs datatype count operation =
     (if rank > sizeW w - 1 then (w, Inl RankOutOfRange)
      else
        (case initRecvBuffer bufs (bufferSizeOf datatype count) of
           Inl e \<Rightarrow> (w, Inl e)
         | Inr out0 \<Rightarrow>
             (case (if rank > 0 then
                      (case recv w (rank - 1) rank
                              (Some (map heap [0 ..< bufferSizeOf datatype count]))
                              datatype count False SCAN of
                         (w1, Inl e) \<Rightarrow> (w1, Inl e)
                       | (w1, Inr (currentAcc, _)) \<Rightarrow>
                           (case op_reduce f operation datatype count currentAcc out0 of
                              Inl e \<Rightarrow> (w1, Inl e)
                            | Inr out1 \<Rightarrow> (w1, Inr out1)))
                    else (w, Inr out0))
              of (w1, Inl e) \<Rightarrow> (w1, Inl e)
               | (w1, Inr out1) \<Rightarrow>
                   if rank < sizeW w - 1 then
                     (case send w1 rank (rank + 1) out1 MPI_INT count SCAN of
                        (w2, Inl e) \<Rightarrow> (w2, Inl e)
                      | (w2, Inr _) \<Rightarrow> (w2, Inr out1))
                   else (w1, Inr out1))))"

text \<open>
  Every rank of a world calls the collective, all on one world object, as the tests
  "Test reduce" and "Test scan" do: for reduce the ranks other than the root in
  ascending order and then the root; for scan the ranks in ascending order. A send
  never blocks and a receive waits for its message, so every run of the ranks in which
  all return leaves the same buffers as this one.
\<close>

fun reduceSenders ::
  "fp \<Rightarrow> MpiWorld \<Rightarrow> int \<Rightarrow> (int \<Rightarrow> byte list option) \<Rightarrow> faabric_datatype_t \<Rightarrow> int
     \<Rightarrow> faabric_op_t \<Rightarrow> int list \<Rightarrow> MpiWorld \<times> (error + unit)" where
  "reduceSenders f w root sb datatype count operation [] = (w, Inr ())"
| "reduceSenders f w root sb datatype count operation (r # rs) =
     (if r = root then reduceSenders f w root sb datatype count operation rs
      else (case reduce f w r root (Separate (sb r) None) datatype count operation of
              (w1, Inl e) \<Rightarrow> (w1, Inl e)
            | (w1, Inr _) \<Rightarrow> reduceSenders f w1 root sb datatype count operation rs))"

definition reduceAll ::
  "fp \<Rightarrow> MpiWorld \<Rightarrow> int \<Rightarrow> (int \<Rightarrow> byte list option) \<Rightarrow> buffers \<Rightarrow> faabric_datatype_t \<Rightarrow> int
     \<Rightarrow> faabric_op_t \<Rightarrow> MpiWorld \<times> (error + byte list option)" where
  "reduceAll f w root sb rootBufs datatype count operation =
     (case reduceSenders f w root sb datatype count operation [0 .. sizeW w - 1] of
        (w1, Inl e) \<Rightarrow> (w1, Inl e)
      | (w1, Inr _) \<Rightarrow> reduce f w1 root root rootBufs datatype count operation)"

fun scanRanks ::
  "fp \<Rightarrow> (nat \<Rightarrow> byte) \<Rightarrow> MpiWorld \<Rightarrow> (int \<Rightarrow> buffers) \<Rightarrow> faabric_datatype_t \<Rightarrow> int
     \<Rightarrow> faabric_op_t \<Rightarrow> int list \<Rightarrow> MpiWorld \<times> (error + byte list option list)" where
  "scanRanks f heap w bufs datatype count operation [] = (w, Inr [])"
| "scanRanks f heap w bufs datatype count operation (r # rs) =
     (case scan f heap w r (bufs r) datatype count operation of
        (w1, Inl e) \<Rightarrow> (w1, Inl e)
      | (w1, Inr out) \<Rightarrow>
          (case scanRanks f heap w1 bufs datatype count operation rs of
             (w2, Inl e) \<Rightarrow> (w2, Inl e)
           | (w2, Inr outs) \<Rightarrow> (w2, Inr (out # outs))))"

definition scanAll ::
  "fp \<Rightarrow> (nat \<Rightarrow> byte) \<Rightarrow> MpiWorld \<Rightarrow> (int \<Rightarrow> buffers) \<Rightarrow> faabric_datatype_t \<Rightarrow> int
     \<Rightarrow> faabric_op_t \<Rightarrow> MpiWorld \<times> (error + byte list option list)" where
  "scanAll f heap w bufs datatype count operation =
     scanRanks f heap w bufs datatype count operation [0 .. sizeW w - 1]"

text \<open>
  The buffer of a vector of \<^verbatim>\<open>int\<close> or of \<^verbatim>\<open>long long\<close>, and the vector of the first
  \<open>n\<close> elements that a buffer holds.
\<close>

definition intBuffer :: "32 word list \<Rightarrow> byte list" where
  "intBuffer xs = concat (map (le_encode 4) xs)"

definition longBuffer :: "64 word list \<Rightarrow> byte list" where
  "longBuffer xs = concat (map (le_encode 8) xs)"

definition intsOf :: "nat \<Rightarrow> byte list \<Rightarrow> 32 word list" where
  "intsOf n mem = map (\<lambda>i. le_decode (readSlot 4 mem i)) [0 ..< n]"

definition longsOf :: "nat \<Rightarrow> byte list \<Rightarrow> 64 word list" where
  "longsOf n mem = map (\<lambda>i. le_decode (readSlot 8 mem i)) [0 ..< n]"

text \<open>
  The world of the tests of the collectives: created with a size on a host, every
  rank registered on it.
\<close>

fun registerRanks :: "MpiWorld \<Rightarrow> int list \<Rightarrow> MpiWorld" where
  "registerRanks w [] = w"
| "registerRanks w (r # rs) = registerRanks (fst (registerRank w r)) rs"

definition localWorld :: "int \<Rightarrow> MpiWorld" where
  "localWorld n =
     registerRanks (fst (create (newWorld ''LOCALHOST'') (messageFactory 1 ''mpi'' ''hellompi'') 123 n))
       [1 .. n - 1]"

subsection \<open>Cartesian topology\<close>

text \<open>
  The loop of \<^verbatim>\<open>getCartesianRank\<close> over the dimensions \<open>2 .. maxDims - 1\<close>: each must
  hold one process; its coordinate is 0 and its period 1. The result is the values
  written to \<^verbatim>\<open>coords[i]\<close> and \<^verbatim>\<open>periods[i]\<close>.
\<close>

fun higherDims :: "int list \<Rightarrow> nat list \<Rightarrow> error + (int list \<times> int list)" where
  "higherDims dims [] = Inr ([], [])"
| "higherDims dims (i # is) =
     (if length dims \<le> i then Inl MemoryFault
      else if dims ! i \<noteq> 1 then Inl HigherDimNotOne
      else (case higherDims dims is of
              Inl e \<Rightarrow> Inl e
            | Inr (cs, ps) \<Rightarrow> Inr (0 # cs, 1 # ps)))"

text \<open>
  \<^verbatim>\<open>getCartesianRank(rank, maxDims, dims, periods, coords)\<close>. The value is the pair of
  what the call leaves in \<^verbatim>\<open>coords[0 .. ]\<close> and in \<^verbatim>\<open>periods[0 .. ]\<close>.
\<close>

definition getCartesianRank ::
  "MpiWorld \<Rightarrow> int \<Rightarrow> int \<Rightarrow> int list \<Rightarrow> MpiWorld \<times> (error + (int list \<times> int list))" where
  "getCartesianRank w rank maxDims dims =
     (if rank > sizeW w - 1 then (w, Inl RankOutOfRange)
      else if length dims < 2 then (w, Inl MemoryFault)
      else if dims ! 0 * dims ! 1 \<noteq> sizeW w then (w, Inl DimsMismatch)
      else
        let w' = w\<lparr>cartProcsPerDim := (dims ! 0, dims ! 1)\<rparr> in
        if dims ! 1 = 0 then (w', Inl DivisionByZero)
        else (case higherDims dims [2 ..< nat maxDims] of
                Inl e \<Rightarrow> (w', Inl e)
              | Inr (cs, ps) \<Rightarrow>
                  (w', Inr ([rank sdiv dims ! 1, rank smod dims ! 1] @ cs, [1, 1] @ ps))))"

definition getRankFromCoords :: "MpiWorld \<Rightarrow> int list \<Rightarrow> error + int" where
  "getRankFromCoords w coords =
     (if fst (cartProcsPerDim w) * snd (cartProcsPerDim w) \<noteq> sizeW w
      then Inl ProcsPerDimMismatch
      else if length coords < 2 then Inl MemoryFault
      else Inr (coords ! 1 + coords ! 0 * snd (cartProcsPerDim w)))"

text \<open>\<^verbatim>\<open>shiftCartesianCoords\<close>: the value is the pair \<open>(source, destination)\<close>.\<close>

definition shiftCartesianCoords :: "MpiWorld \<Rightarrow> int \<Rightarrow> int \<Rightarrow> int \<Rightarrow> error + (int \<times> int)" where
  "shiftCartesianCoords w rank direction disp =
     (let d0 = fst (cartProcsPerDim w); d1 = snd (cartProcsPerDim w) in
      if d1 = 0 then Inl DivisionByZero
      else
        let c0 = rank sdiv d1; c1 = rank smod d1 in
        if direction = 0 \<and> d0 = 0 then Inl DivisionByZero
        else
          let dispCoordsFwd =
                (if direction = 0 then [(c0 + disp) smod d0, c1]
                 else if direction = 1 then [c0, (c1 + disp) smod d1]
                 else [c0, c1])
          in (case getRankFromCoords w dispCoordsFwd of
                Inl e \<Rightarrow> Inl e
              | Inr dst \<Rightarrow>
                  let dispCoordsBwd =
                        (if direction = 0 then [(c0 - disp + d0) smod d0, c1]
                         else if direction = 1 then [c0, (c1 - disp + d1) smod d1]
                         else [c0, c1])
                  in (case getRankFromCoords w dispCoordsBwd of
                        Inl e \<Rightarrow> Inl e
                      | Inr src \<Rightarrow> Inr (src, dst))))"

text \<open>
  The world of the test "Test cartesian communicator", section "2 x 2 grid": four
  ranks, after a call of \<^verbatim>\<open>getCartesianRank\<close> with \<open>dims = {2, 2, 1}\<close>.
\<close>

definition grid2x2 :: MpiWorld where
  "grid2x2 = fst (getCartesianRank ((newWorld ''LOCALHOST'')\<lparr>idW := 123, sizeW := 4\<rparr>) 0 3 [2, 2, 1])"

subsection \<open>The executor\<close>

text \<open>
  \<^verbatim>\<open>FaabricExecutor::finishCall\<close> and \<^verbatim>\<open>executeCall\<close>. The executor talks to the scheduler
  singleton; \<open>schLog\<close> is the sequence of the calls it has made on it. The hooks are
  virtual: \<open>doExecute\<close> returns or throws and may change the message it is given by
  reference, as \<open>preFinishCall\<close> may.
\<close>

datatype sch_event = NotifyCallFinished Message | SetFunctionResult Message

datatype exec_result = Returned bool Message | Threw string Message

record hooks =
  doExecute :: "Message \<Rightarrow> exec_result"
  preFinishCall :: "Message \<Rightarrow> bool \<Rightarrow> string \<Rightarrow> Message"

record executor =
  executionCount :: int
  schLog :: "sch_event list"

text \<open>The hooks of the base class: \<^verbatim>\<open>doExecute\<close> returns true, \<^verbatim>\<open>preFinishCall\<close> is empty.\<close>

definition baseHooks :: hooks where
  "baseHooks = \<lparr>doExecute = (\<lambda>m. Returned True m), preFinishCall = (\<lambda>m _ _. m)\<rparr>"

definition finishCall :: "hooks \<Rightarrow> executor \<Rightarrow> Message \<Rightarrow> bool \<Rightarrow> string \<Rightarrow> executor \<times> Message" where
  "finishCall h ex msg success errorMsg =
     (let m1 = preFinishCall h msg success errorMsg;
          m2 = (if \<not> success then m1\<lparr>outputData := errorMsg\<rparr> else m1);
          ex1 = ex\<lparr>schLog := schLog ex @ [NotifyCallFinished m2]\<rparr>;
          ex2 = ex1\<lparr>schLog := schLog ex1 @ [SetFunctionResult m2]\<rparr>
      in (ex2\<lparr>executionCount := executionCount ex2 + 1\<rparr>, m2))"

text \<open>\<^verbatim>\<open>std::to_string\<close> of an \<^verbatim>\<open>int\<close>.\<close>

function natString :: "nat \<Rightarrow> string" where
  "natString n =
     (if n < 10 then [char_of (48 + n)]
      else natString (n div 10) @ [char_of (48 + n mod 10)])"
  by pat_completeness auto
termination
  by (relation "measure id") auto

definition to_string :: "int \<Rightarrow> string" where
  "to_string i = (if i < 0 then CHR ''-'' # natString (nat (- i)) else natString (nat i))"

text \<open>\<^verbatim>\<open>executeCall\<close>: the value is the error message, empty on success.\<close>

definition executeCall :: "hooks \<Rightarrow> executor \<Rightarrow> Message \<Rightarrow> executor \<times> Message \<times> string" where
  "executeCall h ex call =
     (let (success, call1, errorMessage) =
            (case doExecute h call of
               Returned ok m \<Rightarrow> (ok, m, [])
             | Threw what m \<Rightarrow> (False, m\<lparr>returnValue := 1\<rparr>, ''Error: '' @ what));
          errorMessage1 =
            (if \<not> success \<and> errorMessage = []
             then ''Call failed (return value='' @ to_string (returnValue call1) @ '')''
             else errorMessage)
      in (case finishCall h ex call1 success errorMessage1 of
            (ex', call2) \<Rightarrow> (ex', call2, errorMessage1)))"

text \<open>
  What an observer of the scheduler and of the results can see after some of the calls
  in a log have been made: whether the call with a given id has been notified as
  finished, and whether its result has been written.
\<close>

fun markedFinished :: "int \<Rightarrow> sch_event list \<Rightarrow> bool" where
  "markedFinished i [] = False"
| "markedFinished i (NotifyCallFinished m # es) = (mid m = i \<or> markedFinished i es)"
| "markedFinished i (SetFunctionResult m # es) = markedFinished i es"

fun resultWritten :: "int \<Rightarrow> sch_event list \<Rightarrow> bool" where
  "resultWritten i [] = False"
| "resultWritten i (SetFunctionResult m # es) = (mid m = i \<or> resultWritten i es)"
| "resultWritten i (NotifyCallFinished m # es) = resultWritten i es"

subsection \<open>The scheduler's host resources\<close>

text \<open>
  Modelled from the spec: the record \<^verbatim>\<open>HostResources\<close> of \<^verbatim>\<open>Scheduler.cpp\<close>,
  "\<^verbatim>\<open>{cores: u32, boundExecutors: u32, functionsInFlight: u32}\<close>" with
  "Available slots = \<^verbatim>\<open>cores - functionsInFlight\<close>". The difference is 0 when more
  functions are in flight than the host has cores. Every definition of this subsection
  follows the specification's account of the scheduler; the tests of the scheduler
  (\<^verbatim>\<open>test_scheduler.cpp\<close>) are the code they are compared with.
\<close>

record HostResources =
  cores :: nat
  boundExecutors :: nat
  functionsInFlight :: nat

definition availableSlots :: "HostResources \<Rightarrow> nat" where
  "availableSlots r = cores r - functionsInFlight r"

text \<open>
  Modelled from the spec: the placement of one message by \<^verbatim>\<open>callFunctions\<close> on the
  master host, steps 2a to 2c of the placement algorithm. "If available slots > 0 and
  the message is not a thread: place locally; increment \<^verbatim>\<open>functionsInFlight\<close>." "Else:
  query remote hosts [...] take the first host that reports available slots. Forward
  the message." "If no remote host has capacity: overload - place locally anyway,
  increment \<^verbatim>\<open>functionsInFlight\<close> only (do not create a new executor beyond
  \<^verbatim>\<open>cores\<close>)." The environment decides \<open>isThread\<close> (the batch is of type THREADS) and
  \<open>remoteHasSlots\<close> (some remote host reports available slots).

  Step 2a does not take a thread, so a thread that no remote host takes is placed by
  step 2c also while this host has a free slot. The placement made by step 2c is
  \<open>Overloaded\<close> when this host has no free slot, which is the overload of the
  scenario "Overload", and \<open>PlacedInline\<close> when it has one (a thread only).

  The algorithm names no step that raises \<^verbatim>\<open>boundExecutors\<close>: step 2a increments
  \<^verbatim>\<open>functionsInFlight\<close>, step 2c increments it "only", and the scenario "Overload" ends
  with one bound executor after ten calls on one core. Whether a placement by step 2a
  counts a new executor is the environment's \<open>newExecutor\<close>, under no condition on
  the record; no statement on \<^verbatim>\<open>functionsInFlight\<close> depends on it.
\<close>

datatype placement = PlacedLocally | Forwarded | Overloaded | PlacedInline

definition placeMessage ::
  "bool \<Rightarrow> bool \<Rightarrow> bool \<Rightarrow> HostResources \<Rightarrow> HostResources \<times> placement" where
  "placeMessage isThread remoteHasSlots newExecutor r =
     (if availableSlots r > 0 \<and> \<not> isThread then
        (r\<lparr>functionsInFlight := functionsInFlight r + 1,
           boundExecutors := (if newExecutor then boundExecutors r + 1 else boundExecutors r)\<rparr>,
         PlacedLocally)
      else if remoteHasSlots then (r, Forwarded)
      else (r\<lparr>functionsInFlight := functionsInFlight r + 1\<rparr>,
            if availableSlots r > 0 then PlacedInline else Overloaded))"

text \<open>
  Modelled from the spec: the state transitions of the scheduler that the host
  resources see. \<^verbatim>\<open>callFunction(msg)\<close> is "a one-message batch", \<^verbatim>\<open>callFunctions(req)\<close>
  places "each message in order"; binding an executor leaves the record as it is (the
  executor was counted when the call was placed); "Notify-finished operations below
  zero clamp to zero"; shutdown "resets counters" (and reads the number of usable cores
  anew). The value of a run is the record and the placements made, oldest first.
\<close>

datatype sch_op =
    CallFunction bool bool bool
  | CallFunctions "(bool \<times> bool \<times> bool) list"
  | BindExecutor
  | NotifyCallFinishedOp
  | NotifyFaasletFinishedOp
  | Shutdown nat

fun placeBatch :: "(bool \<times> bool \<times> bool) list \<Rightarrow> HostResources \<Rightarrow> HostResources \<times> placement list" where
  "placeBatch [] r = (r, [])"
| "placeBatch ((t, rem, ne) # ms) r =
     (case placeMessage t rem ne r of
        (r', p) \<Rightarrow> (case placeBatch ms r' of (r'', ps) \<Rightarrow> (r'', p # ps)))"

fun schStep :: "sch_op \<Rightarrow> HostResources \<Rightarrow> HostResources \<times> placement list" where
  "schStep (CallFunction t rem ne) r = placeBatch [(t, rem, ne)] r"
| "schStep (CallFunctions ms) r = placeBatch ms r"
| "schStep BindExecutor r = (r, [])"
| "schStep NotifyCallFinishedOp r = (r\<lparr>functionsInFlight := functionsInFlight r - 1\<rparr>, [])"
| "schStep NotifyFaasletFinishedOp r = (r\<lparr>boundExecutors := boundExecutors r - 1\<rparr>, [])"
| "schStep (Shutdown usable) r = (\<lparr>cores = usable, boundExecutors = 0, functionsInFlight = 0\<rparr>, [])"

fun schRun :: "sch_op list \<Rightarrow> HostResources \<Rightarrow> HostResources \<times> placement list" where
  "schRun [] r = (r, [])"
| "schRun (op # ops) r =
     (case schStep op r of
        (r', ps) \<Rightarrow> (case schRun ops r' of (r'', ps') \<Rightarrow> (r'', ps @ ps')))"


text \<open>
  The worlds of the tests "Test send and recv on same host" (after its send of three
  ints from rank 1 to rank 2) and "Test send/recv message with no data" (before its
  send): size 10, the ranks 1 and 2 registered on the host of rank 0.
\<close>

definition noDataWorld :: MpiWorld where
  "noDataWorld =
     registerRanks (fst (create (newWorld ''LOCALHOST'')
                            (messageFactory 1 ''mpi'' ''hellompi'') 123 10)) [1, 2]"


subsection \<open>Elements of a buffer\<close>

text \<open>The first \<open>n\<close> groups of \<open>wd\<close> bytes of a buffer.\<close>

definition slotsOf :: "nat \<Rightarrow> nat \<Rightarrow> byte list \<Rightarrow> byte list list" where
  "slotsOf wd n mem = map (readSlot wd mem) [0 ..< n]"

text \<open>
  The first \<open>n\<close> elements of a buffer at the type of a datatype, and an operator
  applied to two such vectors element by element: what "the elementwise fold of the
  operation" folds.
\<close>

datatype elems = IntElems "32 word list" | LongElems "64 word list" | DoubleElems "64 word list" | NoElems

definition elemsOf :: "faabric_datatype_t \<Rightarrow> nat \<Rightarrow> byte list \<Rightarrow> elems" where
  "elemsOf datatype n mem =
     (case dt_id datatype of
        FAABRIC_INT \<Rightarrow> IntElems (intsOf n mem)
      | FAABRIC_DOUBLE \<Rightarrow> DoubleElems (longsOf n mem)
      | FAABRIC_LONG_LONG \<Rightarrow> LongElems (longsOf n mem)
      | FAABRIC_OTHER _ \<Rightarrow> NoElems)"

definition intOp :: "faabric_op_t \<Rightarrow> 'a::len word \<Rightarrow> 'a word \<Rightarrow> 'a word" where
  "intOp operation =
     (case operation of
        OP_MAX \<Rightarrow> maxInt
      | OP_MIN \<Rightarrow> minInt
      | OP_SUM \<Rightarrow> (\<lambda>a b. a + b)
      | OP_OTHER _ \<Rightarrow> (\<lambda>a b. a))"

definition doubleOp :: "fp \<Rightarrow> faabric_op_t \<Rightarrow> 64 word \<Rightarrow> 64 word \<Rightarrow> 64 word" where
  "doubleOp f operation =
     (case operation of
        OP_MAX \<Rightarrow> maxDouble f
      | OP_MIN \<Rightarrow> minDouble f
      | OP_SUM \<Rightarrow> dadd f
      | OP_OTHER _ \<Rightarrow> (\<lambda>a b. a))"

fun combine :: "fp \<Rightarrow> faabric_op_t \<Rightarrow> elems \<Rightarrow> elems \<Rightarrow> elems" where
  "combine f operation (IntElems a) (IntElems b) = IntElems (map2 (intOp operation) a b)"
| "combine f operation (LongElems a) (LongElems b) = LongElems (map2 (intOp operation) a b)"
| "combine f operation (DoubleElems a) (DoubleElems b) = DoubleElems (map2 (doubleOp f operation) a b)"
| "combine f operation _ _ = NoElems"

text \<open>The operators and datatypes that \<^verbatim>\<open>op_reduce\<close> implements.\<close>

definition supported :: "faabric_op_t \<Rightarrow> faabric_datatype_t \<Rightarrow> bool" where
  "supported operation datatype =
     ((operation = OP_MAX \<or> operation = OP_MIN \<or> operation = OP_SUM)
      \<and> (datatype = MPI_INT \<or> datatype = MPI_DOUBLE \<or> datatype = MPI_LONG_LONG))"

text \<open>A message as a rank other than the root sends it in \<^verbatim>\<open>reduce\<close>.\<close>

definition reduceMsg :: "int \<Rightarrow> byte list \<Rightarrow> MPIMessage \<Rightarrow> bool" where
  "reduceMsg count payload m =
     (messageType m = REDUCE \<and> msg_count m = count \<and> buffer m = payload)"

text \<open>
  The scenario "Reduce SUM on INT, size 5, root 3": rank \<open>r\<close> holds the vector
  \<open>[r, 10r, 100r]\<close>. No double is involved; \<open>noFp\<close> stands for the arithmetic on them.
\<close>

definition rankVector :: "int \<Rightarrow> byte list" where
  "rankVector r = intBuffer [word_of_int r, word_of_int (10 * r), word_of_int (100 * r)]"

definition noFp :: fp where
  "noFp = \<lparr>dless = (\<lambda>_ _. False), dadd = (\<lambda>a _. a)\<rparr>"

subsection \<open>The invariant of the local queues\<close>

text \<open>
  The invariant of the queue map: a queue for a pair exists only if the receiving rank
  is mapped to this host.
\<close>

definition queuesLocal :: "MpiWorld \<Rightarrow> bool" where
  "queuesLocal w = (\<forall>s r. localQueueMap w (s, r) \<noteq> None \<longrightarrow> rankHostMap w r = Some (thisHost w))"

text \<open>
  One call of a method on a world, whether it returns or throws. Every other
  collective of \<^verbatim>\<open>MpiWorld\<close> reaches the maps through \<^verbatim>\<open>send\<close> and \<^verbatim>\<open>recv\<close> only, so its
  effect on the world is a sequence of these steps. \<^verbatim>\<open>overrideHost\<close> is a step while the
  world has no queue, which is how the tests use it (before the world is created).
\<close>

inductive worldStep :: "MpiWorld \<Rightarrow> MpiWorld \<Rightarrow> bool" where
  step_registerRank: "worldStep w (fst (registerRank w rank))"
| step_getHostForRank: "worldStep w (fst (getHostForRank w rank))"
| step_getLocalQueue: "worldStep w (fst (getLocalQueue w sendRank recvRank))"
| step_getLocalQueueSize: "worldStep w (fst (getLocalQueueSize w sendRank recvRank))"
| step_send: "worldStep w (fst (send w sendRank recvRank buf dataType count mt))"
| step_recv: "worldStep w (fst (recv w sendRank recvRank buf dataType count wantStatus mt))"
| step_enqueueMessage: "worldStep w (fst (enqueueMessage w m))"
| step_reduce: "worldStep w (fst (reduce f w sendRank recvRank bufs dataType count operation))"
| step_scan: "worldStep w (fst (scan f heap w rank bufs dataType count operation))"
| step_create: "worldStep w (fst (create w call newId newSize))"
| step_initialiseFromState: "worldStep w (fst (initialiseFromState w msg wid))"
| step_destroy: "worldStep w (fst (destroy w))"
| step_getCartesianRank: "worldStep w (fst (getCartesianRank w rank maxDims dims))"
| step_overrideHost: "localQueueMap w = Map.empty \<Longrightarrow> worldStep w (overrideHost w newHost)"

text \<open>
  The first world of the test "Test can't get in-memory queue for non-local ranks": on
  host A, rank 1 registered on it, rank 2 registered in the state by the world on host
  B; and the same world after it has obtained the queue of the pair \<open>(0, 1)\<close>.
\<close>

definition hostAWorld :: MpiWorld where
  "hostAWorld =
     (let a = fst (registerRank
                 (fst (create (overrideHost (newWorld ''LOCALHOST'') ''hostA'')
                         (messageFactory 1 ''mpi'' ''hellompi'') 123 10)) 1)
      in a\<lparr>rankState := (rankState a)((123, 2) := ''hostB'')\<rparr>)"

definition hostAQueueWorld :: MpiWorld where
  "hostAQueueWorld = fst (getLocalQueue hostAWorld 0 1)"

section \<open>Theorems\<close>

subsection \<open>Cartesian coordinates\<close>

lemma higherDims_ones:
  assumes "\<forall>i \<in> set is. i < length dims \<and> dims ! i = 1"
  shows "higherDims dims is = Inr (replicate (length is) 0, replicate (length is) 1)"
  using assms by (induction "is") auto

text \<open>
  Claim C6. In a world whose grid satisfies \<open>dims[0] * dims[1] = size\<close>, with one process
  in each dimension from the third on, \<^verbatim>\<open>getCartesianRank\<close> of a rank \<open>r\<close> in
  \<open>0 .. size - 1\<close> stores the grid, yields the coordinates
  \<open>(r / dims[1], r % dims[1], 0, ...)\<close>, and \<^verbatim>\<open>getRankFromCoords\<close> of these coordinates
  returns \<open>r\<close>, computed as \<open>coords[1] + coords[0] * dims[1]\<close>.
\<close>

theorem cartesian_rank_roundtrip:
  assumes grid: "dims ! 0 * dims ! 1 = sizeW w"
    and len: "2 \<le> length dims" "nat maxDims \<le> length dims"
    and higher: "\<forall>i. 2 \<le> i \<and> i < nat maxDims \<longrightarrow> dims ! i = 1"
    and r: "0 \<le> r" "r < sizeW w"
  shows "\<exists>w' coords periods.
           getCartesianRank w r maxDims dims = (w', Inr (coords, periods))
         \<and> coords = [r sdiv dims ! 1, r smod dims ! 1] @ replicate (nat maxDims - 2) 0
         \<and> cartProcsPerDim w' = (dims ! 0, dims ! 1)
         \<and> getRankFromCoords w' coords = Inr (coords ! 1 + coords ! 0 * dims ! 1)
         \<and> getRankFromCoords w' coords = Inr r"
proof -
  have nz: "dims ! 1 \<noteq> 0"
    using grid r by auto
  have "\<forall>i \<in> set [2 ..< nat maxDims]. i < length dims \<and> dims ! i = 1"
    using len higher by auto
  then have hd: "higherDims dims [2 ..< nat maxDims]
      = Inr (replicate (nat maxDims - 2) 0, replicate (nat maxDims - 2) 1)"
    using higherDims_ones [of "[2 ..< nat maxDims]" dims] by simp
  have inv: "r smod dims ! 1 + r sdiv dims ! 1 * dims ! 1 = r"
    by (rule smod_sdiv_mult_eq)
  show ?thesis
    using grid len r nz hd inv
    by (simp add: getCartesianRank_def getRankFromCoords_def Let_def)
qed

theorem cartesian_rank_roundtrip_witness:
  "\<exists>w' coords periods.
     getCartesianRank ((newWorld ''a'')\<lparr>idW := 123, sizeW := 4\<rparr>) 3 3 [2, 2, 1]
       = (w', Inr (coords, periods))
   \<and> coords = [1, 1, 0]
   \<and> getRankFromCoords w' coords = Inr 3"
  using cartesian_rank_roundtrip [of "[2, 2, 1]"
      "(newWorld ''a'')\<lparr>idW := 123, sizeW := 4\<rparr>" 3 3]
  by (auto simp: nth_Cons' newWorld_def split: if_splits)

subsection \<open>Cartesian shifts\<close>

lemma grid2x2_simps:
  "cartProcsPerDim grid2x2 = (2, 2)" "sizeW grid2x2 = 4"
  by (simp_all add: grid2x2_def getCartesianRank_def newWorld_def Let_def)

text \<open>
  In a direction that the grid does not use (any direction other than 0 and 1), source
  and destination are the rank itself.
\<close>

lemma shift_unused_direction:
  assumes "fst (cartProcsPerDim w) * snd (cartProcsPerDim w) = sizeW w"
    and "snd (cartProcsPerDim w) \<noteq> 0"
    and "direction \<noteq> 0" "direction \<noteq> 1"
  shows "shiftCartesianCoords w rank direction disp = Inr (rank, rank)"
  using assms smod_sdiv_mult_eq [of rank "snd (cartProcsPerDim w)"]
  by (simp add: shiftCartesianCoords_def getRankFromCoords_def Let_def)

lemma sdiv_nonneg: "0 \<le> a \<Longrightarrow> 0 < b \<Longrightarrow> (a::int) sdiv b = a div b"
  by (simp add: signed_divide_int_def sgn_if)

lemma smod_nonneg: "0 \<le> a \<Longrightarrow> 0 < b \<Longrightarrow> (a::int) smod b = a mod b"
  by (simp add: signed_modulo_int_def sgn_if)

lemma grid_row:
  assumes "0 \<le> (r::int)" "r < d0 * d1" "0 < d1"
  shows "r div d1 < d0" "0 \<le> r div d1"
proof -
  have m: "0 \<le> r mod d1"
    using assms(3) by simp
  have le: "(r div d1) * d1 \<le> r"
    using m mult_div_mod_eq [of d1 r] by (simp only: ac_simps)
  show "r div d1 < d0"
  proof (rule ccontr)
    assume "\<not> r div d1 < d0"
    then have "d0 * d1 \<le> (r div d1) * d1"
      using assms(3) by (intro mult_right_mono) simp_all
    then show False
      using le assms(2) by simp
  qed
  show "0 \<le> r div d1"
    using assms by (simp add: pos_imp_zdiv_nonneg_iff)
qed

lemma cell_div: "0 \<le> (c1::int) \<Longrightarrow> c1 < d1 \<Longrightarrow> (c1 + c0 * d1) div d1 = c0"
  by simp

lemma cell_mod: "0 \<le> (c1::int) \<Longrightarrow> c1 < d1 \<Longrightarrow> (c1 + c0 * d1) mod d1 = c1"
  by simp

lemma wrap_back: "0 \<le> (c::int) \<Longrightarrow> c < n \<Longrightarrow> ((c + d) mod n - d + n) mod n = c"
proof -
  assume c: "0 \<le> c" "c < n"
  have "((c + d) mod n - d + n) mod n = ((c + d) mod n - d) mod n"
    by simp
  also have "\<dots> = (c + d - d) mod n"
    by (simp only: mod_diff_left_eq)
  also have "\<dots> = c"
    using c by simp
  finally show ?thesis .
qed


lemma cell_range:
  assumes "0 \<le> (c1::int)" "c1 < d1" "0 \<le> c0" "c0 < d0"
  shows "0 \<le> c1 + c0 * d1" "c1 + c0 * d1 < d0 * d1"
proof -
  show "0 \<le> c1 + c0 * d1"
    using assms by simp
  have "c0 + 1 \<le> d0" using assms(4) by simp
  then have "(c0 + 1) * d1 \<le> d0 * d1"
    using assms(1,2) by (intro mult_right_mono) simp_all
  then show "c1 + c0 * d1 < d0 * d1"
    using assms(2) by (simp add: algebra_simps)
qed

lemma shift_forward:
  assumes grid: "cartProcsPerDim w = (d0, d1)" "0 < d0" "0 < d1" "d0 * d1 = sizeW w"
    and rank: "0 \<le> rank" "rank < sizeW w"
    and disp: "0 \<le> disp"
  shows "shiftCartesianCoords w rank 0 disp
        = Inr (rank mod d1 + ((rank div d1 - disp + d0) smod d0) * d1,
               rank mod d1 + ((rank div d1 + disp) mod d0) * d1)"
    and "shiftCartesianCoords w rank 1 disp
        = Inr ((rank mod d1 - disp + d1) smod d1 + (rank div d1) * d1,
               (rank mod d1 + disp) mod d1 + (rank div d1) * d1)"
proof -
  have c0: "0 \<le> rank div d1" "rank div d1 < d0"
    using grid_row [of rank d0 d1] grid rank by simp_all
  have c1: "0 \<le> rank mod d1" "rank mod d1 < d1"
    using grid(3) by simp_all
  have dv: "rank sdiv d1 = rank div d1" "rank smod d1 = rank mod d1"
    using rank grid by (simp_all add: sdiv_nonneg smod_nonneg)
  have f0: "(rank div d1 + disp) smod d0 = (rank div d1 + disp) mod d0"
    using c0 disp grid by (simp add: smod_nonneg)
  have f1: "(rank mod d1 + disp) smod d1 = (rank mod d1 + disp) mod d1"
    using c1 disp grid by (simp add: smod_nonneg)
  show "shiftCartesianCoords w rank 0 disp
        = Inr (rank mod d1 + ((rank div d1 - disp + d0) smod d0) * d1,
               rank mod d1 + ((rank div d1 + disp) mod d0) * d1)"
    using grid dv f0
    by (simp add: shiftCartesianCoords_def getRankFromCoords_def Let_def)
  show "shiftCartesianCoords w rank 1 disp
        = Inr ((rank mod d1 - disp + d1) smod d1 + (rank div d1) * d1,
               (rank mod d1 + disp) mod d1 + (rank div d1) * d1)"
    using grid dv f1
    by (simp add: shiftCartesianCoords_def getRankFromCoords_def Let_def)
qed

text \<open>
  What holds of the round trip: on a grid of positive dimensions, for a rank of the
  world, a direction 0 or 1 and a displacement from 0 up to the length of the grid in
  that direction, the destination is a rank of the world, and the source that the
  destination sees for the same displacement is the rank itself.
\<close>

lemma shift_roundtrip_within_grid:
  assumes grid: "cartProcsPerDim w = (d0, d1)" "0 < d0" "0 < d1" "d0 * d1 = sizeW w"
    and rank: "0 \<le> rank" "rank < sizeW w"
    and dir: "direction = 0 \<or> direction = 1"
    and disp: "0 \<le> disp" "disp \<le> (if direction = 0 then d0 else d1)"
  shows "\<exists>src dst src' dst'.
           shiftCartesianCoords w rank direction disp = Inr (src, dst)
         \<and> 0 \<le> dst \<and> dst < sizeW w
         \<and> shiftCartesianCoords w dst direction disp = Inr (src', dst')
         \<and> src' = rank"
proof -
  have c0: "0 \<le> rank div d1" "rank div d1 < d0"
    using grid_row [of rank d0 d1] grid rank by simp_all
  have c1: "0 \<le> rank mod d1" "rank mod d1 < d1"
    using grid(3) by simp_all
  have whole: "rank mod d1 + rank div d1 * d1 = rank"
    by (simp add: ac_simps)
  from dir show ?thesis
  proof
    assume d: "direction = 0"
    let ?c0' = "(rank div d1 + disp) mod d0"
    let ?dst = "rank mod d1 + ?c0' * d1"
    have c0': "0 \<le> ?c0'" "?c0' < d0"
      using grid(2) by simp_all
    have r': "0 \<le> ?dst" "?dst < sizeW w"
      using cell_range [OF c1 c0'] grid(4) by simp_all
    have dd: "?dst div d1 = ?c0'" "?dst mod d1 = rank mod d1"
      using c1 by (simp_all add: cell_div cell_mod)
    have nn: "0 \<le> ?c0' - disp + d0"
      using c0' disp d by simp
    have bk: "(?c0' - disp + d0) smod d0 = rank div d1"
      using nn grid(2) wrap_back [OF c0, of disp] by (simp add: smod_nonneg)
    show ?thesis
      using shift_forward(1) [OF grid rank disp(1)] shift_forward(1) [OF grid r' disp(1)]
        d r' dd bk whole
      by simp
  next
    assume d: "direction = 1"
    let ?c1' = "(rank mod d1 + disp) mod d1"
    let ?dst = "?c1' + (rank div d1) * d1"
    have c1': "0 \<le> ?c1'" "?c1' < d1"
      using grid(3) by simp_all
    have r': "0 \<le> ?dst" "?dst < sizeW w"
      using cell_range [OF c1' c0] grid(4) by simp_all
    have dd: "?dst div d1 = rank div d1" "?dst mod d1 = ?c1'"
      using c1' by (simp_all add: cell_div cell_mod)
    have nn: "0 \<le> ?c1' - disp + d1"
      using c1' disp d by simp
    have bk: "(?c1' - disp + d1) smod d1 = rank mod d1"
      using nn grid(3) wrap_back [OF c1, of disp] by (simp add: smod_nonneg)
    show ?thesis
      using shift_forward(2) [OF grid rank disp(1)] shift_forward(2) [OF grid r' disp(1)]
        d r' dd bk whole
      by simp
  qed
qed

text \<open>
  Claim C7, evaluated on the 2 x 2 grid. Rank 2 shifted by \<open>+1\<close> in direction 0 has
  destination 0; rank 0 shifted by \<open>-1\<close> in direction 0 has destination \<open>-2\<close>, which is
  no rank, where the torus gives 2: the forward path takes \<^verbatim>\<open>%\<close> of the negative
  \<open>coords[0] + disp\<close>. The backward path adds one full loop before \<^verbatim>\<open>%\<close>, which is
  not enough for a displacement beyond the grid: the source of rank 0 for a
  displacement of 5 is \<open>-2\<close> as well.
\<close>

theorem shift_negative_displacement:
  "shiftCartesianCoords grid2x2 2 0 1 = Inr (0, 0)
   \<and> shiftCartesianCoords grid2x2 0 0 (- 1) = Inr (2, - 2)
   \<and> shiftCartesianCoords grid2x2 0 0 5 = Inr (- 2, 2)"
  by (simp add: shiftCartesianCoords_def getRankFromCoords_def grid2x2_simps Let_def
      signed_divide_int_def signed_modulo_int_def)

subsection \<open>World creation\<close>

text \<open>
  The loop hands one message to the scheduler for each rank it runs over, in order,
  each for the user, the function and the id of the world.
\<close>

lemma dispatchSiblings_schCalls:
  "\<exists>sibs. schCalls (dispatchSiblings w call rs) = schCalls w @ sibs
        \<and> map mpiRank sibs = rs
        \<and> (\<forall>m \<in> set sibs. user m = userW w \<and> funcName m = functionW w \<and> isMpi m
              \<and> mpiWorldId m = idW w \<and> cmdline m = cmdline call)"
proof (induction rs arbitrary: w)
  case Nil
  then show ?case by simp
next
  case (Cons i rs)
  let ?m = "siblingMessage w call i"
  let ?w1 = "callFunction (w\<lparr>nextGid := nextGid w + 1\<rparr>) ?m"
  have same: "userW ?w1 = userW w" "functionW ?w1 = functionW w" "idW ?w1 = idW w"
    "schCalls ?w1 = schCalls w @ [?m]"
    by (simp_all add: callFunction_def)
  have m: "mpiRank ?m = i" "user ?m = userW w" "funcName ?m = functionW w" "isMpi ?m"
    "mpiWorldId ?m = idW w" "cmdline ?m = cmdline call"
    by (simp_all add: siblingMessage_def messageFactory_def)
  from Cons.IH [of ?w1] obtain sibs where
    s: "schCalls (dispatchSiblings ?w1 call rs) = schCalls ?w1 @ sibs"
      "map mpiRank sibs = rs"
      "\<forall>m \<in> set sibs. user m = userW ?w1 \<and> funcName m = functionW ?w1 \<and> isMpi m
          \<and> mpiWorldId m = idW ?w1 \<and> cmdline m = cmdline call"
    by blast
  have a: "schCalls (dispatchSiblings w call (i # rs)) = schCalls w @ (?m # sibs)"
    using s(1) same(4) by simp
  have b: "map mpiRank (?m # sibs) = i # rs"
    using s(2) m(1) by simp
  have c: "\<forall>m \<in> set (?m # sibs). user m = userW w \<and> funcName m = functionW w \<and> isMpi m
      \<and> mpiWorldId m = idW w \<and> cmdline m = cmdline call"
    using s(3) m same(1-3) by simp
  show ?case
    by (rule exI [of _ "?m # sibs"]) (use a b c in blast)
qed

lemma setUp_fresh:
  assumes "0 < newId"
  shows "\<exists>w2. setUpStateKV (w\<lparr>idW := newId, userW := u, functionW := fn, sizeW := n\<rparr>) = Inr w2
      \<and> userW w2 = u \<and> functionW w2 = fn \<and> idW w2 = newId \<and> sizeW w2 = n
      \<and> schCalls w2 = schCalls w \<and> thisHost w2 = thisHost w"
  using assms by (cases "stateKV w") (simp_all add: setUpStateKV_def)

lemma pushToState_fields:
  "userW (pushToState w) = userW w" "functionW (pushToState w) = functionW w"
  "idW (pushToState w) = idW w" "sizeW (pushToState w) = sizeW w"
  "schCalls (pushToState w) = schCalls w" "thisHost (pushToState w) = thisHost w"
  by (simp_all add: pushToState_def split: option.splits)

lemma registerRank_ok:
  assumes "0 < idW w" "0 \<le> rank" "length (cString (thisHost w)) < MPI_HOST_STATE_LEN"
  shows "snd (registerRank w rank) = Inr ()"
    "userW (fst (registerRank w rank)) = userW w"
    "functionW (fst (registerRank w rank)) = functionW w"
    "idW (fst (registerRank w rank)) = idW w"
    "sizeW (fst (registerRank w rank)) = sizeW w"
    "schCalls (fst (registerRank w rank)) = schCalls w"
  using assms by (simp_all add: registerRank_def rankKeyOk_def Let_def)

text \<open>
  Claim C4. On a host whose name fits the state entry and for a positive world id,
  \<^verbatim>\<open>create(call, id, size)\<close> succeeds and hands to the scheduler exactly \<open>size - 1\<close>
  messages, in the order of the ranks \<open>1 .. size - 1\<close>: the \<open>i\<close>-th has the user and
  the function of the creating call, \<^verbatim>\<open>isMpi\<close> set, the id of the new world and the rank
  \<open>i\<close>.
\<close>

theorem create_dispatches_siblings:
  assumes wid: "0 < newId"
    and host: "length (cString (thisHost w)) < MPI_HOST_STATE_LEN"
  shows "\<exists>w' sibs. create w call newId newSize = (w', Inr ())
       \<and> schCalls w' = schCalls w @ sibs
       \<and> length sibs = nat (newSize - 1)
       \<and> map mpiRank sibs = [1 .. newSize - 1]
       \<and> (\<forall>m \<in> set sibs. user m = user call \<and> funcName m = funcName call \<and> isMpi m
             \<and> mpiWorldId m = newId)"
proof -
  let ?w1 = "w\<lparr>idW := newId, userW := user call, functionW := funcName call, sizeW := newSize\<rparr>"
  from setUp_fresh [where w = w and u = "user call" and fn = "funcName call" and n = newSize, OF wid]
  obtain w2 where su: "setUpStateKV ?w1 = Inr w2"
    and w2: "userW w2 = user call" "functionW w2 = funcName call" "idW w2 = newId"
      "sizeW w2 = newSize" "schCalls w2 = schCalls w" "thisHost w2 = thisHost w"
    by blast
  let ?p = "pushToState w2"
  have p: "0 < idW ?p" "length (cString (thisHost ?p)) < MPI_HOST_STATE_LEN"
    using wid host w2 by (simp_all add: pushToState_fields)
  obtain w3 where rr: "registerRank ?p 0 = (w3, Inr ())"
    using registerRank_ok(1) [where rank = 0, OF p(1) _ p(2)]
    by (cases "registerRank ?p 0") simp
  have w3: "userW w3 = user call" "functionW w3 = funcName call" "idW w3 = newId"
    "sizeW w3 = newSize" "schCalls w3 = schCalls w"
    using registerRank_ok(2-6) [where rank = 0, OF p(1) _ p(2)] w2 rr
    by (simp_all add: pushToState_fields)
  from dispatchSiblings_schCalls [of w3 call "[1 .. newSize - 1]"] obtain sibs where
    s: "schCalls (dispatchSiblings w3 call [1 .. newSize - 1]) = schCalls w3 @ sibs"
      "map mpiRank sibs = [1 .. newSize - 1]"
      "\<forall>m \<in> set sibs. user m = userW w3 \<and> funcName m = functionW w3 \<and> isMpi m
          \<and> mpiWorldId m = idW w3 \<and> cmdline m = cmdline call"
    by blast
  have "length (map mpiRank sibs) = length [1 .. newSize - 1]"
    using s(2) by simp
  then have len: "length sibs = nat (newSize - 1)"
    by simp
  have cr: "create w call newId newSize = (dispatchSiblings w3 call [1 .. newSize - 1], Inr ())"
    using su rr w3(4) by (simp add: create_def Let_def)
  have all: "\<forall>m \<in> set sibs. user m = user call \<and> funcName m = funcName call \<and> isMpi m
             \<and> mpiWorldId m = newId"
    using s(3) w3(1-3) by simp
  have sc: "schCalls (dispatchSiblings w3 call [1 .. newSize - 1]) = schCalls w @ sibs"
    using s(1) w3(5) by simp
  show ?thesis
    using cr sc len s(2) all by blast
qed

text \<open>
  The test "Test world creation": a world of size 10 with id 123 hands nine messages to
  the scheduler, for the ranks 1 to 9.
\<close>

theorem create_dispatches_siblings_witness:
  "snd (create (newWorld ''LOCALHOST'') (messageFactory 1 ''mpi'' ''hellompi'') 123 10) = Inr ()
   \<and> map mpiRank
        (schCalls (fst (create (newWorld ''LOCALHOST'') (messageFactory 1 ''mpi'' ''hellompi'') 123 10)))
      = [1, 2, 3, 4, 5, 6, 7, 8, 9]
   \<and> map user
        (schCalls (fst (create (newWorld ''LOCALHOST'') (messageFactory 1 ''mpi'' ''hellompi'') 123 10)))
      = replicate 9 ''mpi''"
proof -
  have h: "length (cString (thisHost (newWorld ''LOCALHOST''))) < MPI_HOST_STATE_LEN"
    by code_simp
  have up: "[1 .. (10::int) - 1] = [1, 2, 3, 4, 5, 6, 7, 8, 9]"
    by code_simp
  have nw: "schCalls (newWorld ''LOCALHOST'') = []"
    by (simp add: newWorld_def)
  have u: "user (messageFactory 1 ''mpi'' ''hellompi'') = ''mpi''"
    by (simp add: messageFactory_def)
  from create_dispatches_siblings [where newId = 123 and w = "newWorld ''LOCALHOST''"
      and call = "messageFactory 1 ''mpi'' ''hellompi''" and newSize = 10, OF _ h]
  obtain w' sibs where
    c: "create (newWorld ''LOCALHOST'') (messageFactory 1 ''mpi'' ''hellompi'') 123 10 = (w', Inr ())"
      "schCalls w' = sibs" "length sibs = 9" "map mpiRank sibs = [1, 2, 3, 4, 5, 6, 7, 8, 9]"
      "\<forall>m \<in> set sibs. user m = ''mpi''"
    unfolding up nw u by auto
  have "map user sibs = map (\<lambda>_. ''mpi'') sibs"
    using c(5) by simp
  then have "map user sibs = replicate 9 ''mpi''"
    using c(3) by (simp add: map_replicate_const)
  then show ?thesis
    using c by simp
qed


subsection \<open>Finishing a call\<close>

text \<open>
  Claim C8 as stated, refuted: between the two calls that \<^verbatim>\<open>finishCall\<close> makes on the
  scheduler, the call is notified as finished and no result has been written. An
  observer at that point sees the call marked finished and finds the result missing.
\<close>

theorem finishCall_window_counterexample:
  "\<not> (\<forall>n. markedFinished 7
              (take n (schLog (fst (finishCall baseHooks \<lparr>executionCount = 0, schLog = []\<rparr>
                                      (messageFactory 7 ''demo'' ''echo'') True []))))
            \<longrightarrow> resultWritten 7
              (take n (schLog (fst (finishCall baseHooks \<lparr>executionCount = 0, schLog = []\<rparr>
                                      (messageFactory 7 ''demo'' ''echo'') True [])))))"
proof
  assume a: "\<forall>n. markedFinished 7
              (take n (schLog (fst (finishCall baseHooks \<lparr>executionCount = 0, schLog = []\<rparr>
                                      (messageFactory 7 ''demo'' ''echo'') True []))))
            \<longrightarrow> resultWritten 7
              (take n (schLog (fst (finishCall baseHooks \<lparr>executionCount = 0, schLog = []\<rparr>
                                      (messageFactory 7 ''demo'' ''echo'') True []))))"
  show False
    using a [rule_format, of 1]
    by (simp add: finishCall_def baseHooks_def messageFactory_def Let_def)
qed

text \<open>
  Claim C8 as amended. Whatever the hooks do and whether the call succeeded or faulted,
  \<^verbatim>\<open>executeCall\<close> and \<^verbatim>\<open>finishCall\<close> make two calls on the scheduler, for one and the
  same message: first the notification that the call has finished, then the write of
  the result. Hence after the first of them the call is marked finished while its
  result is not yet written, and after the second both hold.
\<close>

theorem finishCall_notifies_then_writes:
  "\<exists>m. schLog (fst (finishCall h ex msg success errorMsg))
         = schLog ex @ [NotifyCallFinished m, SetFunctionResult m]
     \<and> snd (finishCall h ex msg success errorMsg) = m
     \<and> markedFinished (mid m) [NotifyCallFinished m]
     \<and> \<not> resultWritten (mid m) [NotifyCallFinished m]
     \<and> markedFinished (mid m) [NotifyCallFinished m, SetFunctionResult m]
     \<and> resultWritten (mid m) [NotifyCallFinished m, SetFunctionResult m]
     \<and> (\<exists>m'. schLog (fst (executeCall h ex msg))
              = schLog ex @ [NotifyCallFinished m', SetFunctionResult m'])"
  by (simp add: finishCall_def executeCall_def Let_def split: exec_result.splits prod.splits)

subsection \<open>Host resources\<close>






text \<open>
  The placement algorithm admits a call by the free slots, \<^verbatim>\<open>cores - functionsInFlight\<close>,
  and not by the executors that are bound. On one core: a call is placed and counts an
  executor, the call finishes and frees the slot, and a second call is placed by step
  2a. If that placement counts an executor as well (an executor serves one user and
  function for its lifetime, so the second call may need its own), two executors are
  bound on one core. No step of the algorithm excludes this, so no bound on
  \<^verbatim>\<open>boundExecutors\<close> follows from it.
\<close>

lemma placement_on_freed_slot:
  "fst (schRun [CallFunction False False True, NotifyCallFinishedOp, CallFunction False False True]
          \<lparr>cores = 1, boundExecutors = 0, functionsInFlight = 0\<rparr>)
     = \<lparr>cores = 1, boundExecutors = 2, functionsInFlight = 1\<rparr>"
  by code_simp




subsection \<open>Point-to-point messages\<close>

lemma getLocalQueue_local:
  assumes "rankHostMap w recvRank = Some (thisHost w)"
  shows "getLocalQueue w sendRank recvRank =
     (case localQueueMap w (sendRank, recvRank) of
        None \<Rightarrow> (w\<lparr>localQueueMap := (localQueueMap w)((sendRank, recvRank) \<mapsto> [])\<rparr>, Inr [])
      | Some q \<Rightarrow> (w, Inr q))"
  using assms by (simp add: getLocalQueue_def checkRankOnThisHost_def)





text \<open>
  Claim C10. A send to a rank on this host with a count that is not positive or with a
  null source buffer appends to the queue of the pair a message whose buffer is empty.
  When the count is 0 and the queue was empty, a receive on the pair with a null
  destination buffer succeeds for every datatype and every count asked for, leaves the
  null pointer as it is, and reports \<open>bytesSize = 0\<close>.
\<close>

theorem zero_length_transfer:
  assumes rank: "recvRank \<le> sizeW w - 1"
    and local: "rankHostMap w recvRank = Some (thisHost w)"
    and nrma: "mt \<noteq> RMA_WRITE"
    and empty: "count \<le> 0 \<or> buf = None"
  shows "\<exists>m. send w sendRank recvRank buf dataType count mt
               = (enqueue (w\<lparr>nextGid := nextGid w + 1\<rparr>) (sendRank, recvRank) m, Inr ())
           \<and> m = \<lparr>msg_id = nextGid w, worldId = idW w, sender = sendRank,
                   destination = recvRank, msg_type = dt_id dataType, msg_count = count,
                   messageType = mt, buffer = []\<rparr>
           \<and> (count = 0 \<and> localQueueMap w (sendRank, recvRank) \<in> {None, Some []}
                \<longrightarrow> (\<forall>dataType' count'. 0 \<le> count'
                      \<longrightarrow> recv (fst (send w sendRank recvRank buf dataType count mt))
                             sendRank recvRank None dataType' count' True mt
                          = (w\<lparr>nextGid := nextGid w + 1,
                                localQueueMap := (localQueueMap w)((sendRank, recvRank) \<mapsto> [])\<rparr>,
                             Inr (None, Some \<lparr>MPI_SOURCE = sendRank, MPI_ERROR = 0,
                                               bytesSize = 0, MPI_TAG = - 1\<rparr>))))"
proof -
  let ?m = "\<lparr>msg_id = nextGid w, worldId = idW w, sender = sendRank,
                   destination = recvRank, msg_type = dt_id dataType, msg_count = count,
                   messageType = mt, buffer = []\<rparr>"
  let ?w1 = "w\<lparr>nextGid := nextGid w + 1\<rparr>"
  have host: "getHostForRank ?w1 recvRank = (?w1, Inr (thisHost w))"
    using local by (simp add: getHostForRank_def)
  have local1: "rankHostMap ?w1 recvRank = Some (thisHost ?w1)"
    using local by simp
  have snd: "send w sendRank recvRank buf dataType count mt
               = (enqueue ?w1 (sendRank, recvRank) ?m, Inr ())"
    using rank nrma empty host
    by (auto simp: send_def Let_def getLocalQueue_local [OF local1] enqueue_def
        split: option.splits)
  have rcv: "recv (enqueue ?w1 (sendRank, recvRank) ?m) sendRank recvRank None dataType' count' True mt
      = (w\<lparr>nextGid := nextGid w + 1,
            localQueueMap := (localQueueMap w)((sendRank, recvRank) \<mapsto> [])\<rparr>,
         Inr (None, Some \<lparr>MPI_SOURCE = sendRank, MPI_ERROR = 0, bytesSize = 0, MPI_TAG = - 1\<rparr>))"
    if "count = 0" "localQueueMap w (sendRank, recvRank) \<in> {None, Some []}" "0 \<le> count'"
    for dataType' count'
  proof -
    have local2: "rankHostMap (enqueue ?w1 (sendRank, recvRank) ?m) recvRank
        = Some (thisHost (enqueue ?w1 (sendRank, recvRank) ?m))"
      using local by (simp add: enqueue_def)
    show ?thesis
      using that local
      by (auto simp: recv_def getLocalQueue_local enqueue_def Let_def)
  qed
  show ?thesis
    using snd rcv by auto
qed

lemma noDataWorld_facts:
  "sizeW noDataWorld = 10" "rankHostMap noDataWorld 2 = Some (thisHost noDataWorld)"
  "localQueueMap noDataWorld (1, 2) = None"
  by code_simp+

text \<open>The test "Test send/recv message with no data".\<close>

theorem zero_length_transfer_witness:
  "snd (send noDataWorld 1 2 (Some (intBuffer [0])) MPI_INT 0 NORMAL) = Inr ()
   \<and> map buffer (the (localQueueMap (fst (send noDataWorld 1 2 (Some (intBuffer [0])) MPI_INT 0 NORMAL)) (1, 2)))
       = [[]]
   \<and> snd (recv (fst (send noDataWorld 1 2 (Some (intBuffer [0])) MPI_INT 0 NORMAL)) 1 2 None MPI_INT 0 True NORMAL)
       = Inr (None, Some \<lparr>MPI_SOURCE = 1, MPI_ERROR = 0, bytesSize = 0, MPI_TAG = - 1\<rparr>)"
  using zero_length_transfer [of 2 noDataWorld NORMAL 0 "Some (intBuffer [0])" 1 MPI_INT]
  by (auto simp: noDataWorld_facts enqueue_def)


subsection \<open>Reduce\<close>

lemma length_le_encode [simp]: "length (le_encode n w) = n"
  by (induction n arbitrary: w) simp_all

lemma le_decode_encode: "le_decode (le_encode n w) = take_bit (8 * n) w"
proof (induction n arbitrary: w)
  case 0
  then show ?case by simp
next
  case (Suc n)
  show ?case
    apply (simp add: Suc)
    apply (rule bit_word_eqI)
    apply (auto simp: bit_simps)
    done
qed

lemma le_decode_encode_32: "le_decode (le_encode 4 (w :: 32 word)) = w"
  by (simp add: le_decode_encode take_bit_word_eq_self del: le_encode.simps)

lemma le_decode_encode_64: "le_decode (le_encode 8 (w :: 64 word)) = w"
  by (simp add: le_decode_encode take_bit_word_eq_self del: le_encode.simps)

lemma slot_bound: "i < (n::nat) \<Longrightarrow> i * wd + wd \<le> n * wd"
proof -
  assume "i < n"
  then have "Suc i * wd \<le> n * wd"
    by (intro mult_le_mono1) simp
  then show ?thesis by (simp add: ac_simps)
qed

lemma length_writeSlot:
  assumes "s * wd + wd \<le> length mem" "length v = wd"
  shows "length (writeSlot wd mem s v) = length mem"
  using assms by (simp add: writeSlot_def)

lemma readSlot_writeSlot_same:
  assumes "s * wd + wd \<le> length mem" "length v = wd"
  shows "readSlot wd (writeSlot wd mem s v) s = v"
  using assms by (simp add: writeSlot_def readSlot_def)

lemma take_drop_take: "a + k \<le> b \<Longrightarrow> take k (drop a (take b xs)) = take k (drop a xs)"
  by (simp add: drop_take min_def)

lemma take_drop_append:
  assumes "a + k \<le> length xs"
  shows "take k (drop a (xs @ ys)) = take k (drop a xs)"
  using assms by simp

lemma readSlot_writeSlot_below:
  assumes "s * wd + wd \<le> length mem" "length v = wd" "i < s"
  shows "readSlot wd (writeSlot wd mem s v) i = readSlot wd mem i"
proof -
  have le: "i * wd + wd \<le> s * wd"
    using slot_bound [OF assms(3)] .
  have "i * wd + wd \<le> length (take (s * wd) mem)"
    using le assms(1) by simp
  then have "take wd (drop (i * wd) (take (s * wd) mem @ v @ drop (s * wd + wd) mem))
      = take wd (drop (i * wd) (take (s * wd) mem))"
    by (rule take_drop_append)
  also have "\<dots> = take wd (drop (i * wd) mem)"
    using le by (rule take_drop_take)
  finally show ?thesis
    by (simp add: writeSlot_def readSlot_def)
qed

lemma readSlot_writeSlot_above:
  assumes "s * wd + wd \<le> length mem" "length v = wd" "s < i"
  shows "readSlot wd (writeSlot wd mem s v) i = readSlot wd mem i"
proof -
  have b: "s * wd + wd \<le> i * wd"
    using slot_bound [OF assms(3)] .
  then have "i * wd - s * wd - wd + (s * wd + wd) = i * wd"
    by simp
  then show ?thesis
    using assms b by (simp add: writeSlot_def readSlot_def min_def)
qed

lemma readSlot_writeSlot:
  assumes "s * wd + wd \<le> length mem" "length v = wd"
  shows "readSlot wd (writeSlot wd mem s v) i = (if i = s then v else readSlot wd mem i)"
  using assms readSlot_writeSlot_same readSlot_writeSlot_below readSlot_writeSlot_above
  by (cases i s rule: linorder_cases) auto

lemma reduceSlots_spec:
  assumes g: "\<And>a b. length (g a b) = wd"
    and len: "n * wd \<le> length outB"
  shows "length (reduceSlots g wd n inB outB) = length outB
       \<and> (\<forall>i. readSlot wd (reduceSlots g wd n inB outB) i
              = (if i < n then g (readSlot wd outB i) (readSlot wd inB i)
                 else readSlot wd outB i))"
  using len
proof (induction n)
  case 0
  then show ?case by simp
next
  case (Suc n)
  let ?o = "reduceSlots g wd n inB outB"
  have le: "n * wd \<le> length outB" and fit: "n * wd + wd \<le> length outB"
    using Suc.prems by (simp_all add: ac_simps)
  from Suc.IH [OF le]
  have l: "length ?o = length outB"
    and r: "\<And>i. readSlot wd ?o i
              = (if i < n then g (readSlot wd outB i) (readSlot wd inB i) else readSlot wd outB i)"
    by auto
  have fit': "n * wd + wd \<le> length ?o"
    using fit l by simp
  show ?case
    using length_writeSlot [OF fit' g] readSlot_writeSlot [OF fit' g] l r
    by (auto simp: Let_def less_Suc_eq)
qed

lemma slotsOf_reduceSlots:
  assumes g: "\<And>a b. length (g a b) = wd"
    and len: "n * wd \<le> length outB"
  shows "slotsOf wd n (reduceSlots g wd n inB outB)
       = map2 g (slotsOf wd n outB) (slotsOf wd n inB)"
  using reduceSlots_spec [where g = g and inB = inB, OF g len]
  by (auto simp: slotsOf_def intro!: nth_equalityI)

lemma readSlot_take:
  assumes "i < n" "n * wd \<le> length mem"
  shows "readSlot wd (take (n * wd) mem @ rest) i = readSlot wd mem i"
proof -
  have le: "i * wd + wd \<le> n * wd"
    using slot_bound [OF assms(1)] .
  have "i * wd + wd \<le> length (take (n * wd) mem)"
    using le assms(2) by simp
  then have "take wd (drop (i * wd) (take (n * wd) mem @ rest))
      = take wd (drop (i * wd) (take (n * wd) mem))"
    by (rule take_drop_append)
  also have "\<dots> = take wd (drop (i * wd) mem)"
    using le by (rule take_drop_take)
  finally show ?thesis
    by (simp add: readSlot_def)
qed

lemma slotsOf_take:
  assumes "n * wd \<le> length mem"
  shows "slotsOf wd n (take (n * wd) mem @ rest) = slotsOf wd n mem"
  using assms by (simp add: slotsOf_def readSlot_take)

lemma intsOf_slotsOf: "intsOf n mem = map le_decode (slotsOf 4 n mem)"
  by (simp add: intsOf_def slotsOf_def)

lemma longsOf_slotsOf: "longsOf n mem = map le_decode (slotsOf 8 n mem)"
  by (simp add: longsOf_def slotsOf_def)

lemma length_slotsOf [simp]: "length (slotsOf wd n mem) = n"
  by (simp add: slotsOf_def)

lemma intsOf_reduceSlots:
  assumes "n * 4 \<le> length outB"
  shows "intsOf n (reduceSlots (onInt h) 4 n inB outB) = map2 h (intsOf n outB) (intsOf n inB)"
proof -
  have g: "\<And>a b. length (onInt h a b) = 4"
    by (simp add: onInt_def del: le_encode.simps)
  have "map le_decode (map2 (onInt h) xs ys) = map2 h (map le_decode xs) (map le_decode ys)"
    for xs ys :: "byte list list"
    by (induction xs ys rule: list_induct2')
       (simp_all add: onInt_def le_decode_encode_32 del: le_encode.simps)
  then show ?thesis
    using slotsOf_reduceSlots [where g = "onInt h" and inB = inB, OF g assms]
    by (simp add: intsOf_slotsOf)
qed

lemma longsOf_reduceSlots:
  assumes "n * 8 \<le> length outB"
  shows "longsOf n (reduceSlots (onLong h) 8 n inB outB) = map2 h (longsOf n outB) (longsOf n inB)"
proof -
  have g: "\<And>a b. length (onLong h a b) = 8"
    by (simp add: onLong_def del: le_encode.simps)
  have "map le_decode (map2 (onLong h) xs ys) = map2 h (map le_decode xs) (map le_decode ys)"
    for xs ys :: "byte list list"
    by (induction xs ys rule: list_induct2')
       (simp_all add: onLong_def le_decode_encode_64 del: le_encode.simps)
  then show ?thesis
    using slotsOf_reduceSlots [where g = "onLong h" and inB = inB, OF g assms]
    by (simp add: longsOf_slotsOf)
qed

lemma length_reduceSlots_int:
  assumes "n * 4 \<le> length outB"
  shows "length (reduceSlots (onInt h) 4 n inB outB) = length outB"
proof -
  have g: "\<And>a b. length (onInt h a b) = 4"
    by (simp add: onInt_def del: le_encode.simps)
  show ?thesis
    using reduceSlots_spec [where g = "onInt h" and inB = inB, OF g assms] by simp
qed

lemma length_reduceSlots_long:
  assumes "n * 8 \<le> length outB"
  shows "length (reduceSlots (onLong h) 8 n inB outB) = length outB"
proof -
  have g: "\<And>a b. length (onLong h a b) = 8"
    by (simp add: onLong_def del: le_encode.simps)
  show ?thesis
    using reduceSlots_spec [where g = "onLong h" and inB = inB, OF g assms] by simp
qed

lemma elemsOf_nil: "supported operation datatype \<Longrightarrow>
    combine f operation (elemsOf datatype 0 a) (elemsOf datatype 0 b) = elemsOf datatype 0 a"
  by (auto simp: supported_def elemsOf_def MPI_INT_def MPI_DOUBLE_def MPI_LONG_LONG_def
      intsOf_def longsOf_def)

lemma op_reduce_typed:
  assumes sup: "supported operation datatype"
    and count: "0 \<le> count"
    and lin: "nat (dt_size datatype * count) \<le> length inB"
    and lout: "nat (dt_size datatype * count) \<le> length outB"
  shows "\<exists>out'. op_reduce f operation datatype count (Some inB) (Some outB) = Inr (Some out')
       \<and> length out' = length outB
       \<and> elemsOf datatype (nat count) out'
           = combine f operation (elemsOf datatype (nat count) outB) (elemsOf datatype (nat count) inB)"
proof (cases "count = 0")
  case True
  then show ?thesis
    using sup elemsOf_nil [OF sup]
    by (auto simp: op_reduce_def slotOp_def supported_def MPI_INT_def MPI_DOUBLE_def
        MPI_LONG_LONG_def)
next
  case False
  then have pos: "0 < count" using count by simp
  have l4: "dt_size datatype = 4 \<Longrightarrow> nat count * 4 \<le> length inB \<and> nat count * 4 \<le> length outB"
    using lin lout count by (simp add: nat_mult_distrib ac_simps)
  have l8: "dt_size datatype = 8 \<Longrightarrow> nat count * 8 \<le> length inB \<and> nat count * 8 \<le> length outB"
    using lin lout count by (simp add: nat_mult_distrib ac_simps)
  show ?thesis
    using sup pos l4 l8
    by (auto simp: op_reduce_def slotOp_def supported_def MPI_INT_def MPI_DOUBLE_def
        MPI_LONG_LONG_def elemsOf_def intOp_def doubleOp_def
        intsOf_reduceSlots longsOf_reduceSlots length_reduceSlots_int length_reduceSlots_long)
qed

lemma send_local:
  assumes rank: "recvRank \<le> sizeW w - 1"
    and local: "rankHostMap w recvRank = Some (thisHost w)"
    and nrma: "mt \<noteq> RMA_WRITE"
    and count: "0 \<le> count"
    and size: "bufferSizeOf dataType count = nat (dt_size dataType * count)"
    and len: "nat (dt_size dataType * count) \<le> length mem"
  shows "send w sendRank recvRank (Some mem) dataType count mt
       = (enqueue (w\<lparr>nextGid := nextGid w + 1\<rparr>) (sendRank, recvRank)
            \<lparr>msg_id = nextGid w, worldId = idW w, sender = sendRank, destination = recvRank,
             msg_type = dt_id dataType, msg_count = count, messageType = mt,
             buffer = take (nat (dt_size dataType * count)) mem\<rparr>, Inr ())"
proof -
  let ?w1 = "w\<lparr>nextGid := nextGid w + 1\<rparr>"
  have host: "getHostForRank ?w1 recvRank = (?w1, Inr (thisHost w))"
    using local by (simp add: getHostForRank_def)
  have ld: "loadBytes (bufferSizeOf dataType count) (Some mem)
          = Inr (take (nat (dt_size dataType * count)) mem)"
    using len size by (auto simp: loadBytes_def)
  have z: "count = 0 \<Longrightarrow> take (nat (dt_size dataType * count)) mem = []"
    by simp
  show ?thesis
    using rank nrma host local count z
    by (cases "0 < count")
       (auto simp: send_def Let_def ld getLocalQueue_local enqueue_def split: option.splits)
qed

lemma recv_ok:
  assumes local: "rankHostMap w recvRank = Some (thisHost w)"
    and head: "localQueueMap w (sendRank, recvRank) = Some (m # q)"
    and mt: "mt = messageType m"
    and cnt: "msg_count m \<le> count"
    and st: "(if msg_count m > 0 then storeBytes (buffer m) buf else Inr buf) = Inr buf'"
  shows "recv w sendRank recvRank buf dataType count wantStatus mt
       = (w\<lparr>localQueueMap := (localQueueMap w)((sendRank, recvRank) \<mapsto> q)\<rparr>,
          Inr (buf',
               if wantStatus
               then Some \<lparr>MPI_SOURCE = sender m, MPI_ERROR = 0,
                          bytesSize = msg_count m * dt_size dataType, MPI_TAG = - 1\<rparr>
               else None))"
  using head mt cnt st
  by (simp add: recv_def getLocalQueue_local [OF local] Let_def)

lemma reduceSenders_ok:
  assumes "distinct rs"
    and root: "root \<le> sizeW w - 1" "rankHostMap w root = Some (thisHost w)"
    and count: "0 \<le> count"
    and bufs: "\<forall>r \<in> set rs. r \<noteq> root \<longrightarrow>
        localQueueMap w (r, root) \<in> {None, Some []}
        \<and> (\<exists>mem. sb r = Some mem \<and> nat (dt_size datatype * count) \<le> length mem)"
    and bsz: "bufferSizeOf datatype count = nat (dt_size datatype * count)"
  shows "\<exists>w'. reduceSenders f w root sb datatype count operation rs = (w', Inr ())
       \<and> sizeW w' = sizeW w \<and> thisHost w' = thisHost w \<and> rankHostMap w' = rankHostMap w
       \<and> (\<forall>r \<in> set rs. r \<noteq> root \<longrightarrow>
            (\<exists>m. localQueueMap w' (r, root) = Some [m]
               \<and> reduceMsg count (take (nat (dt_size datatype * count)) (the (sb r))) m))
       \<and> (\<forall>r. r \<notin> set rs \<longrightarrow> localQueueMap w' (r, root) = localQueueMap w (r, root))"
  using assms
proof (induction rs arbitrary: w)
  case Nil
  then show ?case by simp
next
  case (Cons r rs)
  show ?case
  proof (cases "r = root")
    case True
    have "\<exists>w'. reduceSenders f w root sb datatype count operation rs = (w', Inr ())
       \<and> sizeW w' = sizeW w \<and> thisHost w' = thisHost w \<and> rankHostMap w' = rankHostMap w
       \<and> (\<forall>r \<in> set rs. r \<noteq> root \<longrightarrow>
            (\<exists>m. localQueueMap w' (r, root) = Some [m]
               \<and> reduceMsg count (take (nat (dt_size datatype * count)) (the (sb r))) m))
       \<and> (\<forall>r. r \<notin> set rs \<longrightarrow> localQueueMap w' (r, root) = localQueueMap w (r, root))"
      using Cons.prems by (intro Cons.IH) auto
    then show ?thesis
      using True by auto
  next
    case False
    obtain mem where mem: "sb r = Some mem" "nat (dt_size datatype * count) \<le> length mem"
      and q0: "localQueueMap w (r, root) \<in> {None, Some []}"
      using Cons.prems(5) False by auto
    let ?m = "\<lparr>msg_id = nextGid w, worldId = idW w, sender = r, destination = root,
             msg_type = dt_id datatype, msg_count = count, messageType = REDUCE,
             buffer = take (nat (dt_size datatype * count)) mem\<rparr>"
    let ?w1 = "enqueue (w\<lparr>nextGid := nextGid w + 1\<rparr>) (r, root) ?m"
    have snd: "send w r root (Some mem) datatype count REDUCE = (?w1, Inr ())"
      using send_local [OF Cons.prems(2) Cons.prems(3) _ Cons.prems(4) bsz mem(2)] by simp
    have red: "reduce f w r root (Separate (sb r) None) datatype count operation = (?w1, Inr None)"
      using False snd mem by (simp add: reduce_def)
    have w1: "sizeW ?w1 = sizeW w" "thisHost ?w1 = thisHost w" "rankHostMap ?w1 = rankHostMap w"
      by (simp_all add: enqueue_def)
    have q1: "localQueueMap ?w1 (r, root) = Some [?m]"
      using q0 by (auto simp: enqueue_def)
    have other: "localQueueMap ?w1 (r', root) = localQueueMap w (r', root)" if "r' \<noteq> r" for r'
      using that by (simp add: enqueue_def)
    have "\<exists>w'. reduceSenders f ?w1 root sb datatype count operation rs = (w', Inr ())
       \<and> sizeW w' = sizeW ?w1 \<and> thisHost w' = thisHost ?w1 \<and> rankHostMap w' = rankHostMap ?w1
       \<and> (\<forall>r \<in> set rs. r \<noteq> root \<longrightarrow>
            (\<exists>m. localQueueMap w' (r, root) = Some [m]
               \<and> reduceMsg count (take (nat (dt_size datatype * count)) (the (sb r))) m))
       \<and> (\<forall>r. r \<notin> set rs \<longrightarrow> localQueueMap w' (r, root) = localQueueMap ?w1 (r, root))"
    proof (intro Cons.IH)
      show "distinct rs" using Cons.prems(1) by simp
      show "root \<le> sizeW ?w1 - 1" using Cons.prems(2) w1 by simp
      show "rankHostMap ?w1 root = Some (thisHost ?w1)" using Cons.prems(3) w1 by simp
      show "0 \<le> count" by fact
      show "bufferSizeOf datatype count = nat (dt_size datatype * count)" by fact
      show "\<forall>r \<in> set rs. r \<noteq> root \<longrightarrow>
        localQueueMap ?w1 (r, root) \<in> {None, Some []}
        \<and> (\<exists>mem. sb r = Some mem \<and> nat (dt_size datatype * count) \<le> length mem)"
      proof (intro ballI impI)
        fix r' assume r': "r' \<in> set rs" "r' \<noteq> root"
        then have "r' \<noteq> r" using Cons.prems(1) by auto
        from other [OF this] Cons.prems(5) r'
        show "localQueueMap ?w1 (r', root) \<in> {None, Some []}
          \<and> (\<exists>mem. sb r' = Some mem \<and> nat (dt_size datatype * count) \<le> length mem)"
          by simp
      qed
    qed
    then obtain w' where w': "reduceSenders f ?w1 root sb datatype count operation rs = (w', Inr ())"
       "sizeW w' = sizeW ?w1" "thisHost w' = thisHost ?w1" "rankHostMap w' = rankHostMap ?w1"
       "\<forall>r \<in> set rs. r \<noteq> root \<longrightarrow>
            (\<exists>m. localQueueMap w' (r, root) = Some [m]
               \<and> reduceMsg count (take (nat (dt_size datatype * count)) (the (sb r))) m)"
       "\<forall>r. r \<notin> set rs \<longrightarrow> localQueueMap w' (r, root) = localQueueMap ?w1 (r, root)"
      by blast
    have rq: "localQueueMap w' (r, root) = Some [?m]"
      using w'(6) Cons.prems(1) q1 by simp
    have rm: "reduceMsg count (take (nat (dt_size datatype * count)) (the (sb r))) ?m"
      using mem by (simp add: reduceMsg_def)
    have "reduceSenders f w root sb datatype count operation (r # rs) = (w', Inr ())"
      using False red w'(1) by simp
    moreover have "\<forall>r' \<in> set (r # rs). r' \<noteq> root \<longrightarrow>
            (\<exists>m. localQueueMap w' (r', root) = Some [m]
               \<and> reduceMsg count (take (nat (dt_size datatype * count)) (the (sb r'))) m)"
      using w'(5) rq rm by auto
    moreover have "\<forall>r'. r' \<notin> set (r # rs) \<longrightarrow> localQueueMap w' (r', root) = localQueueMap w (r', root)"
      using w'(6) other by auto
    ultimately show ?thesis
      using w'(2,3,4) w1 by auto
  qed
qed

lemma elemsOf_take:
  assumes sup: "supported operation datatype"
    and count: "0 \<le> count"
    and len: "nat (dt_size datatype * count) \<le> length mem"
  shows "elemsOf datatype (nat count) (take (nat (dt_size datatype * count)) mem)
       = elemsOf datatype (nat count) mem"
proof -
  have e4: "dt_size datatype = 4 \<Longrightarrow> nat (dt_size datatype * count) = nat count * 4"
    and e8: "dt_size datatype = 8 \<Longrightarrow> nat (dt_size datatype * count) = nat count * 8"
    using count by (simp_all add: nat_mult_distrib ac_simps)
  have t: "slotsOf wd (nat count) (take (nat count * wd) mem) = slotsOf wd (nat count) mem"
    if "nat count * wd \<le> length mem" for wd
    using slotsOf_take [OF that, of "[]"] by simp
  show ?thesis
    using sup len e4 e8 t [of 4] t [of 8]
    by (auto simp: supported_def elemsOf_def MPI_INT_def MPI_DOUBLE_def MPI_LONG_LONG_def
        intsOf_slotsOf longsOf_slotsOf)
qed

lemma bufferSizeOf_small:
  assumes "supported operation datatype" "0 \<le> count" "count < 2 ^ 31"
  shows "bufferSizeOf datatype count = nat (dt_size datatype * count)"
proof -
  have "0 \<le> dt_size datatype * count" "dt_size datatype * count < 2 ^ 64"
    using assms
    by (auto simp: supported_def MPI_INT_def MPI_DOUBLE_def MPI_LONG_LONG_def)
  then show ?thesis
    by (simp add: bufferSizeOf_def)
qed

lemma reduceLoop_ok:
  assumes sup: "supported operation datatype"
    and count: "0 \<le> count" "count < 2 ^ 31"
    and local: "rankHostMap w root = Some (thisHost w)"
    and dist: "distinct rs"
    and msgs: "\<forall>r \<in> set rs. r \<noteq> root \<longrightarrow>
        nat (dt_size datatype * count) \<le> length (dat r)
        \<and> (\<exists>m. localQueueMap w (r, root) = Some [m]
               \<and> reduceMsg count (take (nat (dt_size datatype * count)) (dat r)) m)"
    and out: "nat (dt_size datatype * count) \<le> length out"
  shows "\<exists>w' out'. reduceLoop f w root datatype count operation rs (Some out) = (w', Inr (Some out'))
       \<and> length out' = length out
       \<and> elemsOf datatype (nat count) out'
           = foldl (combine f operation) (elemsOf datatype (nat count) out)
               (map (\<lambda>r. elemsOf datatype (nat count) (dat r)) (filter (\<lambda>r. r \<noteq> root) rs))"
  using local dist msgs out
proof (induction rs arbitrary: w out)
  case Nil
  then show ?case by simp
next
  case (Cons r rs)
  let ?n = "nat (dt_size datatype * count)"
  have bs: "bufferSizeOf datatype count = ?n"
    using bufferSizeOf_small [OF sup count] .
  show ?case
  proof (cases "r = root")
    case True
    have "\<exists>w' out'. reduceLoop f w root datatype count operation rs (Some out) = (w', Inr (Some out'))
       \<and> length out' = length out
       \<and> elemsOf datatype (nat count) out'
           = foldl (combine f operation) (elemsOf datatype (nat count) out)
               (map (\<lambda>r. elemsOf datatype (nat count) (dat r)) (filter (\<lambda>r. r \<noteq> root) rs))"
      using Cons.prems by (intro Cons.IH) auto
    then show ?thesis
      using True by simp
  next
    case False
    obtain m where len: "?n \<le> length (dat r)"
      and q: "localQueueMap w (r, root) = Some [m]"
      and m: "reduceMsg count (take ?n (dat r)) m"
      using Cons.prems(3) False by auto
    let ?w1 = "w\<lparr>localQueueMap := (localQueueMap w)((r, root) \<mapsto> [])\<rparr>"
    have st: "(if msg_count m > 0 then storeBytes (buffer m) (Some (replicate ?n 0))
               else Inr (Some (replicate ?n 0))) = Inr (Some (take ?n (dat r)))"
    proof (cases "0 < count")
      case True
      then show ?thesis
        using m len by (auto simp: reduceMsg_def storeBytes_def)
    next
      case False
      then have "count = 0" using count by simp
      then show ?thesis
        using m by (simp add: reduceMsg_def)
    qed
    have rc: "recv w r root (Some (replicate (bufferSizeOf datatype count) 0)) datatype count
                False REDUCE = (?w1, Inr (Some (take ?n (dat r)), None))"
      using recv_ok [OF Cons.prems(1) q _ _ st, of REDUCE count "datatype" False] m
      by (simp add: bs reduceMsg_def)
    have lin: "?n \<le> length (take ?n (dat r))"
      using len by simp
    from op_reduce_typed [OF sup count(1) lin Cons.prems(4), of f]
    obtain out1 where o1: "op_reduce f operation datatype count (Some (take ?n (dat r))) (Some out)
          = Inr (Some out1)"
      and l1: "length out1 = length out"
      and e1: "elemsOf datatype (nat count) out1
           = combine f operation (elemsOf datatype (nat count) out)
               (elemsOf datatype (nat count) (take ?n (dat r)))"
      by blast
    have e1': "elemsOf datatype (nat count) out1
           = combine f operation (elemsOf datatype (nat count) out)
               (elemsOf datatype (nat count) (dat r))"
      using e1 elemsOf_take [OF sup count(1) len] by simp
    have "\<exists>w' out'. reduceLoop f ?w1 root datatype count operation rs (Some out1) = (w', Inr (Some out'))
       \<and> length out' = length out1
       \<and> elemsOf datatype (nat count) out'
           = foldl (combine f operation) (elemsOf datatype (nat count) out1)
               (map (\<lambda>r. elemsOf datatype (nat count) (dat r)) (filter (\<lambda>r. r \<noteq> root) rs))"
    proof (intro Cons.IH)
      show "rankHostMap ?w1 root = Some (thisHost ?w1)"
        using Cons.prems(1) by simp
      show "distinct rs" using Cons.prems(2) by simp
      show "?n \<le> length out1" using l1 Cons.prems(4) by simp
      show "\<forall>r \<in> set rs. r \<noteq> root \<longrightarrow>
        ?n \<le> length (dat r)
        \<and> (\<exists>m. localQueueMap ?w1 (r, root) = Some [m] \<and> reduceMsg count (take ?n (dat r)) m)"
      proof (intro ballI impI)
        fix r' assume r': "r' \<in> set rs" "r' \<noteq> root"
        then have "r' \<noteq> r" using Cons.prems(2) by auto
        then have "localQueueMap ?w1 (r', root) = localQueueMap w (r', root)"
          by simp
        with Cons.prems(3) r'
        show "?n \<le> length (dat r')
          \<and> (\<exists>m. localQueueMap ?w1 (r', root) = Some [m] \<and> reduceMsg count (take ?n (dat r')) m)"
          by simp
      qed
    qed
    then obtain w' out' where
      rl: "reduceLoop f ?w1 root datatype count operation rs (Some out1) = (w', Inr (Some out'))"
      and l': "length out' = length out1"
      and e': "elemsOf datatype (nat count) out'
           = foldl (combine f operation) (elemsOf datatype (nat count) out1)
               (map (\<lambda>r. elemsOf datatype (nat count) (dat r)) (filter (\<lambda>r. r \<noteq> root) rs))"
      by blast
    have "reduceLoop f w root datatype count operation (r # rs) (Some out) = (w', Inr (Some out'))"
      using False rc o1 rl by simp
    then show ?thesis
      using False l' l1 e' e1' by simp
  qed
qed

lemma elemsOf_take_append:
  assumes sup: "supported operation datatype"
    and count: "0 \<le> count"
    and len: "nat (dt_size datatype * count) \<le> length mem"
  shows "elemsOf datatype (nat count) (take (nat (dt_size datatype * count)) mem @ rest)
       = elemsOf datatype (nat count) mem"
proof -
  have e4: "dt_size datatype = 4 \<Longrightarrow> nat (dt_size datatype * count) = nat count * 4"
    and e8: "dt_size datatype = 8 \<Longrightarrow> nat (dt_size datatype * count) = nat count * 8"
    using count by (simp_all add: nat_mult_distrib ac_simps)
  have t: "slotsOf wd (nat count) (take (nat count * wd) mem @ rest) = slotsOf wd (nat count) mem"
    if "nat count * wd \<le> length mem" for wd
    using slotsOf_take [OF that] by simp
  show ?thesis
    using sup len e4 e8 t [of 4] t [of 8]
    by (auto simp: supported_def elemsOf_def MPI_INT_def MPI_DOUBLE_def MPI_LONG_LONG_def
        intsOf_slotsOf longsOf_slotsOf)
qed

lemma elemsOf_zero:
  "elemsOf datatype 0 a = elemsOf datatype 0 b"
  by (simp add: elemsOf_def intsOf_def longsOf_def split: datatype_id.splits)

lemma initRecvBuffer_ok:
  assumes sup: "supported operation datatype"
    and count: "0 \<le> count"
    and len: "nat (dt_size datatype * count) \<le> length d"
    and bufs: "rootBufs = InPlace (Some d)
       \<or> (\<exists>rb. rootBufs = Separate (Some d) (Some rb) \<and> nat (dt_size datatype * count) \<le> length rb)"
  shows "\<exists>out. initRecvBuffer rootBufs (nat (dt_size datatype * count)) = Inr (Some out)
       \<and> nat (dt_size datatype * count) \<le> length out
       \<and> elemsOf datatype (nat count) out = elemsOf datatype (nat count) d"
  using bufs
proof
  assume "rootBufs = InPlace (Some d)"
  then show ?thesis
    using len by (simp add: initRecvBuffer_def)
next
  let ?n = "nat (dt_size datatype * count)"
  assume "\<exists>rb. rootBufs = Separate (Some d) (Some rb) \<and> ?n \<le> length rb"
  then obtain rb where rb: "rootBufs = Separate (Some d) (Some rb)" "?n \<le> length rb"
    by blast
  have ld: "loadBytes ?n (Some d) = Inr (take ?n d)"
    using len by (auto simp: loadBytes_def)
  show ?thesis
  proof (cases "take ?n d = []")
    case True
    then have "?n = 0" using len by auto
    then have "count = 0"
      using sup count
      by (auto simp: supported_def MPI_INT_def MPI_DOUBLE_def MPI_LONG_LONG_def
          nat_mult_distrib zero_less_mult_iff)
    then show ?thesis
      using rb ld True elemsOf_zero [of "datatype" rb d]
      by (simp add: initRecvBuffer_def storeBytes_def)
  next
    case False
    have "storeBytes (take ?n d) (Some rb) = Inr (Some (take ?n d @ drop ?n rb))"
      using False rb(2) len by (simp add: storeBytes_def min_def)
    then show ?thesis
      using rb ld len elemsOf_take_append [OF sup count len, of "drop ?n rb"]
      by (simp add: initRecvBuffer_def)
  qed
qed

text \<open>
  Claim C2. In a world of size \<open>n\<close> whose root is on this host and whose queues towards
  the root are empty, let every rank call \<^verbatim>\<open>reduce\<close> with root \<open>root\<close>, a supported
  operator and datatype, and a send buffer \<open>dat r\<close> holding \<open>count\<close> elements; the root
  either in place on its buffer or with a separate receive buffer of that size. Then
  all calls return, and the receive buffer of the root holds, as its first \<open>count\<close>
  elements, the elementwise fold of the operator over the send buffers of all \<open>n\<close>
  ranks: the vector of the root (copied in, or left as it is when in place) combined
  with the vectors of the other ranks in ascending order.
\<close>

theorem reduce_folds_all_ranks:
  assumes sup: "supported operation datatype"
    and count: "0 \<le> count" "count < 2 ^ 31"
    and root: "0 \<le> root" "root < sizeW w"
    and local: "rankHostMap w root = Some (thisHost w)"
    and empty: "\<forall>r. 0 \<le> r \<and> r < sizeW w \<and> r \<noteq> root
                 \<longrightarrow> localQueueMap w (r, root) \<in> {None, Some []}"
    and bufs: "\<forall>r. 0 \<le> r \<and> r < sizeW w \<longrightarrow> nat (dt_size datatype * count) \<le> length (dat r)"
    and rootBufs: "rootBufs = InPlace (Some (dat root))
       \<or> (\<exists>rb. rootBufs = Separate (Some (dat root)) (Some rb)
               \<and> nat (dt_size datatype * count) \<le> length rb)"
  shows "\<exists>w' out.
           reduceAll f w root (\<lambda>r. Some (dat r)) rootBufs datatype count operation
             = (w', Inr (Some out))
         \<and> elemsOf datatype (nat count) out
             = foldl (combine f operation) (elemsOf datatype (nat count) (dat root))
                 (map (\<lambda>r. elemsOf datatype (nat count) (dat r))
                    (filter (\<lambda>r. r \<noteq> root) [0 .. sizeW w - 1]))"
proof -
  let ?n = "nat (dt_size datatype * count)"
  let ?rs = "[0 .. sizeW w - 1]"
  have dist: "distinct ?rs" by simp
  have inrs: "r \<in> set ?rs \<longleftrightarrow> 0 \<le> r \<and> r < sizeW w" for r
    by auto
  have sbufs: "\<forall>r \<in> set ?rs. r \<noteq> root \<longrightarrow>
        localQueueMap w (r, root) \<in> {None, Some []}
        \<and> (\<exists>mem. (\<lambda>r. Some (dat r)) r = Some mem \<and> ?n \<le> length mem)"
    using empty bufs inrs by simp
  have rk: "root \<le> sizeW w - 1" using root by simp
  from reduceSenders_ok [OF dist rk local count(1) sbufs bufferSizeOf_small [OF sup count],
      of f operation]
  obtain w1 where s1: "reduceSenders f w root (\<lambda>r. Some (dat r)) datatype count operation ?rs
        = (w1, Inr ())"
    and w1: "sizeW w1 = sizeW w" "thisHost w1 = thisHost w" "rankHostMap w1 = rankHostMap w"
    and q1: "\<forall>r \<in> set ?rs. r \<noteq> root \<longrightarrow>
            (\<exists>m. localQueueMap w1 (r, root) = Some [m] \<and> reduceMsg count (take ?n (dat r)) m)"
    by auto
  from initRecvBuffer_ok [OF sup count(1) _ rootBufs] bufs root
  obtain out0 where i0: "initRecvBuffer rootBufs ?n = Inr (Some out0)"
    and l0: "?n \<le> length out0"
    and e0: "elemsOf datatype (nat count) out0 = elemsOf datatype (nat count) (dat root)"
    by auto
  have local1: "rankHostMap w1 root = Some (thisHost w1)"
    using local w1 by simp
  have msgs: "\<forall>r \<in> set ?rs. r \<noteq> root \<longrightarrow>
        ?n \<le> length (dat r)
        \<and> (\<exists>m. localQueueMap w1 (r, root) = Some [m] \<and> reduceMsg count (take ?n (dat r)) m)"
    using q1 bufs inrs by simp
  from reduceLoop_ok [OF sup count local1 dist msgs l0, of f]
  obtain w' out where rl: "reduceLoop f w1 root datatype count operation ?rs (Some out0)
        = (w', Inr (Some out))"
    and e: "elemsOf datatype (nat count) out
           = foldl (combine f operation) (elemsOf datatype (nat count) out0)
               (map (\<lambda>r. elemsOf datatype (nat count) (dat r)) (filter (\<lambda>r. r \<noteq> root) ?rs))"
    by blast
  have "reduceAll f w root (\<lambda>r. Some (dat r)) rootBufs datatype count operation
      = (w', Inr (Some out))"
    using s1 i0 rl w1 bufferSizeOf_small [OF sup count]
    by (simp add: reduceAll_def reduce_def)
  then show ?thesis
    using e e0 by auto
qed

lemma localWorld5_facts:
  "sizeW (localWorld 5) = 5"
  "rankHostMap (localWorld 5) 3 = Some (thisHost (localWorld 5))"
  "localQueueMap (localWorld 5) k = None"
  by code_simp+

lemma length_rankVector: "length (rankVector r) = 12"
  by (simp add: rankVector_def intBuffer_def)

text \<open>
  The scenario "Reduce SUM on INT, size 5, root 3": the result on the root is
  \<open>[10, 100, 1000]\<close>.
\<close>

theorem reduce_folds_all_ranks_witness:
  "\<exists>w' out.
     reduceAll noFp (localWorld 5) 3 (\<lambda>r. Some (rankVector r))
        (Separate (Some (rankVector 3)) (Some (intBuffer [0, 0, 0]))) MPI_INT 3 OP_SUM
       = (w', Inr (Some out))
   \<and> elemsOf MPI_INT 3 out = IntElems [10, 100, 1000]"
proof -
  have fold: "foldl (combine noFp OP_SUM) (elemsOf MPI_INT (nat 3) (rankVector 3))
                 (map (\<lambda>r. elemsOf MPI_INT (nat 3) (rankVector r))
                    (filter (\<lambda>r. r \<noteq> 3) [0 .. sizeW (localWorld 5) - 1]))
      = IntElems [10, 100, 1000]"
    unfolding localWorld5_facts by code_simp
  have sup: "supported OP_SUM MPI_INT"
    by (simp add: supported_def)
  have bufs: "\<forall>r. 0 \<le> r \<and> r < sizeW (localWorld 5)
      \<longrightarrow> nat (dt_size MPI_INT * 3) \<le> length (rankVector r)"
    by (simp add: length_rankVector MPI_INT_def)
  have rb: "Separate (Some (rankVector 3)) (Some (intBuffer [0, 0, 0])) = InPlace (Some (rankVector 3))
       \<or> (\<exists>rb. Separate (Some (rankVector 3)) (Some (intBuffer [0, 0, 0]))
                  = Separate (Some (rankVector 3)) (Some rb)
               \<and> nat (dt_size MPI_INT * 3) \<le> length rb)"
    by (simp add: MPI_INT_def intBuffer_def)
  show ?thesis
    using reduce_folds_all_ranks [OF sup _ _ _ _ localWorld5_facts(2) _ bufs rb, of noFp]
      fold
    by (simp add: localWorld5_facts)
qed

subsection \<open>Scan\<close>

text \<open>
  The scenario "Scan SUM on INT, size 5, count 3": rank \<open>r\<close> holds
  \<open>[10r, 10r + 1, 10r + 2]\<close>, and rank \<open>k\<close> ends with the elementwise sum over the ranks
  \<open>0 .. k\<close>, whatever the allocation holds.
\<close>

lemma scan_int_scenario:
  "snd (scanAll f heap (localWorld 5)
          (\<lambda>r. InPlace (Some (intBuffer [word_of_int (10 * r), word_of_int (10 * r + 1),
                                            word_of_int (10 * r + 2)])))
          MPI_INT 3 OP_SUM)
     = Inr [Some (intBuffer [0, 1, 2]), Some (intBuffer [10, 12, 14]),
            Some (intBuffer [30, 33, 36]), Some (intBuffer [60, 64, 68]),
            Some (intBuffer [100, 105, 110])]"
  by code_simp

text \<open>
  Claim C3, evaluated for \<^verbatim>\<open>long long\<close> on a world of two ranks, sum, one element: rank
  0 holds \<open>2^32\<close> and rank 1 holds 1. With a zeroed allocation rank 1 ends with 1, where
  the prefix sum is \<open>2^32 + 1\<close>: the accumulator travels as \<open>count\<close> elements of
  \<^verbatim>\<open>MPI_INT\<close>, which is the lower half of its bytes. Whatever the allocation holds, the
  result of rank 1 is the same when rank 0 holds 0 instead.
\<close>

theorem scan_long_long_lower_half:
  "snd (scanAll f (\<lambda>_. 0) (localWorld 2)
          (\<lambda>r. InPlace (Some (longBuffer [if r = 0 then 2 ^ 32 else 1]))) MPI_LONG_LONG 1 OP_SUM)
     = Inr [Some (longBuffer [2 ^ 32]), Some (longBuffer [1])]
   \<and> map_sum id (\<lambda>outs. outs ! 1)
         (snd (scanAll f heap (localWorld 2)
                 (\<lambda>r. InPlace (Some (longBuffer [if r = 0 then 2 ^ 32 else 1])))
                 MPI_LONG_LONG 1 OP_SUM))
     = map_sum id (\<lambda>outs. outs ! 1)
         (snd (scanAll f heap (localWorld 2)
                 (\<lambda>r. InPlace (Some (longBuffer [if r = 0 then 0 else 1])))
                 MPI_LONG_LONG 1 OP_SUM))"
  by code_simp

subsection \<open>Local queues\<close>

lemma ql_registerRank: "queuesLocal w \<Longrightarrow> queuesLocal (fst (registerRank w rank))"
  by (auto simp: queuesLocal_def registerRank_def Let_def)

lemma ql_getHostForRank: "queuesLocal w \<Longrightarrow> queuesLocal (fst (getHostForRank w rank))"
  by (fastforce simp: queuesLocal_def getHostForRank_def split: option.splits)

lemma ql_getLocalQueue:
  assumes "queuesLocal w"
  shows "queuesLocal (fst (getLocalQueue w s r))"
    and "snd (getLocalQueue w s r) = Inr q
         \<Longrightarrow> rankHostMap (fst (getLocalQueue w s r)) r = Some (thisHost (fst (getLocalQueue w s r)))"
  using assms
  by (auto simp: queuesLocal_def getLocalQueue_def checkRankOnThisHost_def
      split: option.splits if_splits)

lemma ql_update:
  assumes "queuesLocal w" "rankHostMap w r = Some (thisHost w)"
  shows "queuesLocal (w\<lparr>localQueueMap := (localQueueMap w)((s, r) \<mapsto> q)\<rparr>)"
  using assms by (auto simp: queuesLocal_def)

lemma ql_enqueue:
  assumes "queuesLocal w" "rankHostMap w r = Some (thisHost w)"
  shows "queuesLocal (enqueue w (s, r) m)"
  using assms by (auto simp: queuesLocal_def enqueue_def)

lemma ql_getLocalQueueSize: "queuesLocal w \<Longrightarrow> queuesLocal (fst (getLocalQueueSize w s r))"
  using ql_getLocalQueue(1) [of w s r]
  by (auto simp: getLocalQueueSize_def split: prod.splits sum.splits)

lemma ql_other_fields:
  "queuesLocal (w\<lparr>nextGid := g\<rparr>) = queuesLocal w"
  "queuesLocal (w\<lparr>remoteSent := rs\<rparr>) = queuesLocal w"
  "queuesLocal (w\<lparr>rmaSynced := rm\<rparr>) = queuesLocal w"
  "queuesLocal (w\<lparr>schCalls := sc\<rparr>) = queuesLocal w"
  "queuesLocal (w\<lparr>worldState := ws\<rparr>) = queuesLocal w"
  "queuesLocal (w\<lparr>rankState := rks\<rparr>) = queuesLocal w"
  "queuesLocal (w\<lparr>stateKV := kv\<rparr>) = queuesLocal w"
  "queuesLocal (w\<lparr>idW := i\<rparr>) = queuesLocal w"
  "queuesLocal (w\<lparr>sizeW := n\<rparr>) = queuesLocal w"
  "queuesLocal (w\<lparr>userW := u\<rparr>) = queuesLocal w"
  "queuesLocal (w\<lparr>functionW := fn\<rparr>) = queuesLocal w"
  "queuesLocal (w\<lparr>cartProcsPerDim := c\<rparr>) = queuesLocal w"
  by (simp_all add: queuesLocal_def)

lemma ql_send: 
  assumes "queuesLocal w"
  shows "queuesLocal (fst (send w s r buf dataType count mt))"
proof -
  let ?w1 = "w\<lparr>nextGid := nextGid w + 1\<rparr>"
  have q1: "queuesLocal ?w1" using assms by (simp add: ql_other_fields)
  obtain w2 res where h: "getHostForRank ?w1 r = (w2, res)"
    by (cases "getHostForRank ?w1 r") auto
  have q2: "queuesLocal w2"
    using ql_getHostForRank [OF q1, of r] h by simp
  obtain w3 res3 where g: "getLocalQueue w2 s r = (w3, res3)"
    by (cases "getLocalQueue w2 s r") auto
  have q3: "queuesLocal w3"
    using ql_getLocalQueue(1) [OF q2, of s r] g by simp
  have l3: "res3 = Inr q \<Longrightarrow> rankHostMap w3 r = Some (thisHost w3)" for q
    using ql_getLocalQueue(2) [OF q2, of s r q] g by simp
  show ?thesis
    using assms q2 q3 l3 h g
    by (auto simp: send_def Let_def ql_other_fields synchronizeRmaWrite_def ql_enqueue
        split: sum.splits prod.splits)
qed

lemma ql_recv:
  assumes "queuesLocal w"
  shows "queuesLocal (fst (recv w s r buf dataType count wantStatus mt))"
proof -
  obtain w1 res where g: "getLocalQueue w s r = (w1, res)"
    by (cases "getLocalQueue w s r") auto
  have q1: "queuesLocal w1"
    using ql_getLocalQueue(1) [OF assms, of s r] g by simp
  have l1: "res = Inr q \<Longrightarrow> rankHostMap w1 r = Some (thisHost w1)" for q
    using ql_getLocalQueue(2) [OF assms, of s r q] g by simp
  show ?thesis
    using q1 l1 g
    by (auto simp: recv_def Let_def ql_update split: sum.splits prod.splits list.splits)
qed

lemma ql_enqueueMessage:
  assumes "queuesLocal w"
  shows "queuesLocal (fst (enqueueMessage w m))"
proof -
  obtain w1 res where g: "getLocalQueue w (sender m) (destination m) = (w1, res)"
    by (cases "getLocalQueue w (sender m) (destination m)") auto
  have q1: "queuesLocal w1"
    using ql_getLocalQueue(1) [OF assms, of "sender m" "destination m"] g by simp
  have l1: "res = Inr q \<Longrightarrow> rankHostMap w1 (destination m) = Some (thisHost w1)" for q
    using ql_getLocalQueue(2) [OF assms, of "sender m" "destination m" q] g by simp
  show ?thesis
    using assms q1 l1 g
    by (auto simp: enqueueMessage_def ql_other_fields synchronizeRmaWrite_def ql_enqueue
        split: sum.splits prod.splits)
qed

lemma ql_reduceLoop:
  "queuesLocal w \<Longrightarrow> queuesLocal (fst (reduceLoop f w root dataType count operation rs out))"
proof (induction rs arbitrary: w out)
  case Nil
  then show ?case by simp
next
  case (Cons r rs)
  obtain w1 res where rc: "recv w r root (Some (replicate (bufferSizeOf dataType count) 0))
        dataType count False REDUCE = (w1, res)"
    by (cases "recv w r root (Some (replicate (bufferSizeOf dataType count) 0))
        dataType count False REDUCE") auto
  have q1: "queuesLocal w1"
    using ql_recv [OF Cons.prems, of r root "Some (replicate (bufferSizeOf dataType count) 0)"
        dataType count False REDUCE] rc by simp
  show ?case
    using Cons.IH [OF Cons.prems] Cons.IH [OF q1] q1 rc
    by (auto split: sum.splits prod.splits)
qed

lemma ql_reduce:
  "queuesLocal w \<Longrightarrow> queuesLocal (fst (reduce f w s r bufs dataType count operation))"
  using ql_reduceLoop [of w f r dataType count operation]
    ql_send [of w s r "sendBufferOf bufs" dataType count REDUCE]
  by (auto simp: reduce_def split: sum.splits prod.splits)

lemma ql_sendD:
  "send w s r buf dataType count mt = (w', res) \<Longrightarrow> queuesLocal w \<Longrightarrow> queuesLocal w'"
  using ql_send [of w s r buf dataType count mt] by simp

lemma ql_recvD:
  "recv w s r buf dataType count wantStatus mt = (w', res) \<Longrightarrow> queuesLocal w \<Longrightarrow> queuesLocal w'"
  using ql_recv [of w s r buf dataType count wantStatus mt] by simp

lemma ql_scan:
  assumes "queuesLocal w"
  shows "queuesLocal (fst (scan f heap w rank bufs dataType count operation))"
  using assms
  by (auto simp: scan_def split: sum.splits prod.splits if_splits dest: ql_sendD ql_recvD)

lemma ql_setUpStateKV: "queuesLocal w \<Longrightarrow> setUpStateKV w = Inr w' \<Longrightarrow> queuesLocal w'"
  by (auto simp: setUpStateKV_def ql_other_fields split: option.splits if_splits)

lemma ql_pushToState: "queuesLocal (pushToState w) = queuesLocal w"
  by (simp add: pushToState_def ql_other_fields split: option.splits)

lemma ql_dispatchSiblings:
  "queuesLocal (dispatchSiblings w call rs) = queuesLocal w"
  by (induction rs arbitrary: w) (simp_all add: callFunction_def ql_other_fields)

lemma ql_create:
  assumes "queuesLocal w"
  shows "queuesLocal (fst (create w call newId newSize))"
proof -
  let ?w1 = "w\<lparr>idW := newId, userW := user call, functionW := funcName call, sizeW := newSize\<rparr>"
  have q1: "queuesLocal ?w1"
    using assms by (simp add: queuesLocal_def)
  have q2: "queuesLocal (fst (registerRank (pushToState w2) 0))" if "setUpStateKV ?w1 = Inr w2" for w2
    using ql_setUpStateKV [OF q1 that] by (intro ql_registerRank) (simp add: ql_pushToState)
  show ?thesis
    using q1 q2
    by (auto simp: create_def Let_def ql_dispatchSiblings split: sum.splits prod.splits)
qed

lemma ql_initialiseFromState:
  assumes "queuesLocal w"
  shows "queuesLocal (fst (initialiseFromState w msg wid))"
proof -
  let ?w1 = "w\<lparr>idW := wid, userW := user msg, functionW := funcName msg\<rparr>"
  have q1: "queuesLocal ?w1"
    using assms by (simp add: queuesLocal_def)
  show ?thesis
    using q1 ql_setUpStateKV [OF q1]
    by (auto simp: initialiseFromState_def Let_def ql_other_fields split: sum.splits)
qed

lemma ql_destroy: "queuesLocal w \<Longrightarrow> queuesLocal (fst (destroy w))"
  using ql_setUpStateKV [of w]
  by (auto simp: destroy_def Let_def ql_other_fields split: sum.splits)
     (auto simp: queuesLocal_def)

lemma ql_getCartesianRank:
  "queuesLocal w \<Longrightarrow> queuesLocal (fst (getCartesianRank w rank maxDims dims))"
  by (auto simp: getCartesianRank_def Let_def ql_other_fields split: sum.splits prod.splits)

lemma ql_overrideHost:
  "localQueueMap w = Map.empty \<Longrightarrow> queuesLocal (overrideHost w newHost)"
  by (simp add: queuesLocal_def overrideHost_def)

lemma ql_step: "worldStep w w' \<Longrightarrow> queuesLocal w \<Longrightarrow> queuesLocal w'"
  by (induction rule: worldStep.induct)
     (simp_all add: ql_registerRank ql_getHostForRank ql_getLocalQueue(1) ql_getLocalQueueSize
        ql_send ql_recv ql_enqueueMessage ql_reduce ql_scan ql_create ql_initialiseFromState
        ql_destroy ql_getCartesianRank ql_overrideHost)

lemma hostAWorld_facts:
  "localQueueMap hostAWorld k = None"
  "thisHost hostAWorld = ''hostA''"
  by code_simp+

lemma hostAQueueWorld_facts:
  "localQueueMap hostAQueueWorld (0, 1) = Some []"
  "rankHostMap hostAQueueWorld 1 = Some ''hostA''"
  "thisHost hostAQueueWorld = ''hostA''"
  by code_simp+

text \<open>
  Claim C9 as stated, refuted: the world on host A holds the queue of the pair
  \<open>(0, 1)\<close>, rank 1 being on host A. After \<^verbatim>\<open>overrideHost("hostB")\<close> the queue is still
  there and rank 1 is mapped to host A, which is no longer this host.
\<close>

theorem overrideHost_counterexample:
  "queuesLocal hostAQueueWorld \<and> \<not> queuesLocal (overrideHost hostAQueueWorld ''hostB'')"
proof
  have "queuesLocal hostAWorld"
    by (simp add: queuesLocal_def hostAWorld_facts)
  then show "queuesLocal hostAQueueWorld"
    unfolding hostAQueueWorld_def by (rule ql_getLocalQueue(1))
  show "\<not> queuesLocal (overrideHost hostAQueueWorld ''hostB'')"
  proof
    assume "queuesLocal (overrideHost hostAQueueWorld ''hostB'')"
    then have "localQueueMap hostAQueueWorld (0, 1) \<noteq> None
        \<longrightarrow> rankHostMap hostAQueueWorld 1 = Some ''hostB''"
      unfolding queuesLocal_def overrideHost_def by simp
    then show False
      by (simp add: hostAQueueWorld_facts)
  qed
qed

text \<open>
  Claim C9 as amended. Every operation of the world other than \<^verbatim>\<open>overrideHost\<close> on a
  world that already has queues preserves the invariant, along every sequence of
  operations. An attempt to obtain the queue for a rank that is not mapped to this host
  in the cache (not registered, or registered elsewhere) fails and leaves the world as
  it is, and it fails with "remote rank" once the mapping to another host has been
  fetched from the state.
\<close>

theorem local_queues_only_for_local_ranks:
  assumes inv: "queuesLocal w"
    and steps: "worldStep\<^sup>*\<^sup>* w w'"
  shows "queuesLocal w'
       \<and> (rankHostMap w' r \<noteq> Some (thisHost w')
            \<longrightarrow> (\<exists>e. getLocalQueue w' s r = (w', Inl e)))
       \<and> (\<forall>v h. getHostForRank w' r = (v, Inr h) \<and> h \<noteq> thisHost w'
            \<longrightarrow> getLocalQueue v s r = (v, Inl RemoteRankQueue))"
proof -
  have "queuesLocal w'"
    using steps inv by (induction rule: rtranclp_induct) (auto intro: ql_step)
  moreover have "rankHostMap w' r \<noteq> Some (thisHost w')
            \<longrightarrow> (\<exists>e. getLocalQueue w' s r = (w', Inl e))"
    by (auto simp: getLocalQueue_def checkRankOnThisHost_def split: option.splits)
  moreover have "\<forall>v h. getHostForRank w' r = (v, Inr h) \<and> h \<noteq> thisHost w'
            \<longrightarrow> getLocalQueue v s r = (v, Inl RemoteRankQueue)"
    by (auto simp: getHostForRank_def getLocalQueue_def checkRankOnThisHost_def
        split: option.splits if_splits)
  ultimately show ?thesis by blast
qed

text \<open>The requirements of the test, on the world of host A.\<close>

theorem local_queues_only_for_local_ranks_witness:
  "queuesLocal hostAQueueWorld
   \<and> snd (getLocalQueue hostAQueueWorld 0 3) = Inl NoMappingForRank
   \<and> snd (getLocalQueue hostAQueueWorld 0 2) = Inl NoMappingForRank
   \<and> snd (getHostForRank hostAQueueWorld 2) = Inr ''hostB''
   \<and> snd (getLocalQueue (fst (getHostForRank hostAQueueWorld 2)) 0 2) = Inl RemoteRankQueue"
proof -
  have inv: "queuesLocal hostAWorld"
    by (simp add: queuesLocal_def hostAWorld_facts)
  have steps: "worldStep\<^sup>*\<^sup>* hostAWorld hostAQueueWorld"
    unfolding hostAQueueWorld_def by (rule r_into_rtranclp) (rule step_getLocalQueue)
  have ev: "snd (getLocalQueue hostAQueueWorld 0 3) = Inl NoMappingForRank"
    "snd (getLocalQueue hostAQueueWorld 0 2) = Inl NoMappingForRank"
    "snd (getHostForRank hostAQueueWorld 2) = Inr ''hostB''"
    "snd (getLocalQueue (fst (getHostForRank hostAQueueWorld 2)) 0 2) = Inl RemoteRankQueue"
    by code_simp+
  show ?thesis
    using local_queues_only_for_local_ranks [OF inv steps, of 2 0] ev by simp
qed

end
